theory Spec2Isabelle
  imports Complex_Main "HOL-Library.Sublist"
begin

section \<open>The notify plugin backend (packages/backend/src/index.ts)\<close>

text \<open>
  A shallow embedding of the dedup-and-dispatch pipeline of the Caido notify plugin.
  The module-level variables of index.ts (\<open>sentFindingsCache\<close>, \<open>checkDelayCache\<close>,
  \<open>useCustomProviderConfigCache\<close>, \<open>checkInterval\<close>) are the fields of a state record
  that every operation takes and returns. What a run reads from outside the module
  (the clock, the stored exclusion list and notify configuration, the GraphQL answer,
  the date parser, the outcome of each notifier process) is the \<open>env\<close> record of the run.
  What a run does to the outside (saving the sent-log, spawning the notifier, console
  errors, the \<open>findings-sent\<close> event, arming and clearing the interval timer) is
  appended, in program order, to the \<open>trace\<close> field of the state.

  Strings are lists of bytes, the UTF-8 encoding of the JavaScript string.
  \<open>String.prototype.toLowerCase\<close> folds every cased letter of Unicode; it is a field of
  \<open>env\<close>, and \<open>asciiLower\<close> below is what it does on strings of ASCII characters.
  Timestamps are whole milliseconds (\<open>Date.now()\<close>, \<open>Date.getTime()\<close>), so
  they are integers; the check delay arrives as an arbitrary JavaScript number over
  the plugin API and is a real here (NaN is outside the model).

  Of the exceptions the \<open>try\<close> block of checkAndSendFindings would catch, the model
  has a throwing \<open>sdk.graphql.execute\<close> and a throwing \<open>spawn\<close>. The set
  \<open>sentIds\<close> that the source builds and never reads is left out, as are the checks of
  \<open>sentFindingsCache\<close> against undefined and null, which never hold. The second
  backend file, types.ts, keeps the same state in a database table; its
  checkAndSendFindings has the same filter, the same test of the default destination
  and the same fan-out, and is not modelled separately.
\<close>

subsection \<open>Data\<close>

datatype 'a Result = Error string | Ok 'a

record SentFinding =
  findingId :: string
  timestamp :: int

text \<open>
  The kind of a destination. The type of the source has \<open>"id"\<close> and \<open>"provider"\<close>;
  \<open>OtherValue\<close> is a value that is neither, which the lookup of a kind gives when it
  reads an inherited property of the object (see \<open>resolveNotifyIds\<close>).
\<close>

datatype idsType = Id | Provider | OtherValue

text \<open>
  \<open>NotifyConfig\<close>: every field is optional in the source. The two records of the
  source are objects whose keys \<open>Object.keys\<close> enumerates in order, so they are
  association lists. The fields \<open>excludedFindings\<close> and \<open>sentFindings\<close> of the type are
  never read by the backend and are left out.
\<close>

record NotifyConfig =
  defaultIds :: "string option"
  defaultIdsType :: "idsType option"
  customFindingIds :: "(string \<times> string) list option"
  customFindingIdsType :: "(string \<times> idsType) list option"

text \<open>A node of the GraphQL answer (\<open>id\<close> is \<open>nodeId\<close> here), and the answer.\<close>

record node =
  nodeId :: string
  title :: string
  description :: "string option"
  reporter :: string
  host :: string
  path :: string
  createdAt :: "string option"

record response =
  errors :: "string list option"
  nodes :: "node list option"

record FindingWithTimestamp =
  getId :: string
  getTitle :: string
  getDescription :: string
  getReporter :: string
  getTimestamp :: int

text \<open>
  How one call of \<open>spawn\<close> ends. Either the call returns a process, and then the
  three handlers of the source see one of: the \<open>close\<close> event with an exit code (absent
  when a signal ended the process) and the text collected from standard error, the
  30 second timer firing first, or the \<open>error\<close> event (the process could not be
  started). The first of the three resolves the promise of the group; what the process
  does after that is not part of the run. Or the call itself throws (\<open>SpawnThrows\<close>,
  with the message of the exception), for instance on an argument that holds a NUL
  character; the call is made in the executor of the promise, so the promise is
  rejected.
\<close>

datatype outcome = Close "int option" string | Timeout | SpawnError string | SpawnThrows string

text \<open>
  What a run does to the outside. \<open>Spawn args input\<close> is the call of \<open>spawn\<close> with these
  arguments for the group whose message is \<open>input\<close>, written to the standard input of
  the process when the call returns one.
\<close>

datatype effect =
    SaveSent "SentFinding list"
  | Spawn "string list" string
  | LogGraphQLErrors "string list"
  | LogNotifyFailed string "int option" string
  | LogProcessError string string
  | LogCheckError string
  | Emit nat nat
  | ClearInterval real
  | SetInterval real

record state =
  sentFindingsCache :: "SentFinding list"
  checkDelayCache :: real
  useCustomProviderConfigCache :: bool
  checkInterval :: "real option"
  trace :: "effect list"

text \<open>
  The inputs of one run. \<open>excludedRead\<close> and \<open>notifyIdsRead\<close> are what reading the
  stored exclusion list and notify configuration gives (\<open>Inl\<close>: the message of the
  exception the read threw); \<open>graphqlExecute\<close> is the answer of \<open>sdk.graphql.execute\<close>
  (\<open>Inl\<close>: it threw); \<open>parseDate s\<close> is \<open>new Date(s).getTime()\<close>, with \<open>None\<close> for NaN;
  the two paths are the values of \<open>getProviderConfigFile()\<close> and
  \<open>getDefaultNotifyProviderConfigFile()\<close>; \<open>notify args stdin\<close> is how the call of
  \<open>spawn\<close> with these arguments and this input ends, and \<open>notifyEnds args stdin\<close> the time
  at which the handler of that end runs; \<open>rejectionDelivered\<close> is the time at which the
  \<open>catch\<close> block runs when a promise of the fan-out is rejected; \<open>toLowerCase\<close> is
  \<open>String.prototype.toLowerCase\<close>.
\<close>

record env =
  excludedRead :: "string + string list"
  now :: int
  graphqlExecute :: "string + response"
  parseDate :: "string \<Rightarrow> int option"
  notifyIdsRead :: "string + NotifyConfig"
  providerConfigFile :: string
  defaultNotifyProviderConfigFile :: string
  notify :: "string list \<Rightarrow> string \<Rightarrow> outcome"
  notifyEnds :: "string list \<Rightarrow> string \<Rightarrow> nat"
  rejectionDelivered :: nat
  toLowerCase :: "string \<Rightarrow> string"

subsection \<open>Strings\<close>

definition charCode :: "char \<Rightarrow> nat" where
  "charCode c = of_char c"

definition lowerChar :: "char \<Rightarrow> char" where
  "lowerChar c =
     (if 65 \<le> charCode c \<and> charCode c \<le> 90 then char_of (charCode c + 32) else c)"

text \<open>\<open>toLowerCase\<close> on a string of ASCII characters: the letters A to Z are folded.\<close>

definition asciiLower :: "string \<Rightarrow> string" where
  "asciiLower s = map lowerChar s"

text \<open>
  Equality up to ASCII case, stated without \<open>asciiLower\<close>: the same length, and at
  each position the same character or the two cases of one letter.
\<close>

definition sameLetter :: "char \<Rightarrow> char \<Rightarrow> bool" where
  "sameLetter a b =
     (a = b
      \<or> (65 \<le> charCode a \<and> charCode a \<le> 90 \<and> charCode b = charCode a + 32)
      \<or> (65 \<le> charCode b \<and> charCode b \<le> 90 \<and> charCode a = charCode b + 32))"

definition equalUpToCase :: "string \<Rightarrow> string \<Rightarrow> bool" where
  "equalUpToCase a b = list_all2 sameLetter a b"

fun join :: "string \<Rightarrow> string list \<Rightarrow> string" where
  "join sep [] = []"
| "join sep [x] = x"
| "join sep (x # y # ys) = x @ sep @ join sep (y # ys)"

text \<open>The idiom \<open>x || ""\<close> on an optional string: absent and empty both give the empty string.\<close>

definition orEmpty :: "string option \<Rightarrow> string" where
  "orEmpty x = (case x of None \<Rightarrow> [] | Some v \<Rightarrow> v)"

definition newline :: string where
  "newline = [CHR 0x0A]"

definition bell :: string where
  "bell = [CHR 0xF0, CHR 0x9F, CHR 0x94, CHR 0x94]"

subsection \<open>Storage\<close>

definition getExcludedFindings :: "env \<Rightarrow> string list Result" where
  "getExcludedFindings e =
     (case excludedRead e of
        Inl m \<Rightarrow> Error (''Failed to read excluded findings: '' @ m)
      | Inr excluded \<Rightarrow> Ok excluded)"

definition getNotifyIds :: "env \<Rightarrow> NotifyConfig Result" where
  "getNotifyIds e =
     (case notifyIdsRead e of
        Inl m \<Rightarrow> Error (''Failed to read notify IDs: '' @ m)
      | Inr config \<Rightarrow> Ok config)"

definition getSentFindings :: "state \<Rightarrow> SentFinding list Result" where
  "getSentFindings s = Ok (sentFindingsCache s)"

definition saveSentFindings :: "SentFinding list \<Rightarrow> state \<Rightarrow> unit Result \<times> state" where
  "saveSentFindings sent s =
     (Ok (), s\<lparr>sentFindingsCache := sent, trace := trace s @ [SaveSent sent]\<rparr>)"

definition clearSentFindings :: "state \<Rightarrow> unit Result \<times> state" where
  "clearSentFindings s = (Ok (), s\<lparr>sentFindingsCache := []\<rparr>)"

definition getCheckDelay :: "state \<Rightarrow> real Result" where
  "getCheckDelay s = Ok (checkDelayCache s)"

definition saveCheckDelay :: "real \<Rightarrow> state \<Rightarrow> unit Result \<times> state" where
  "saveCheckDelay delay s =
     (if delay < 1000 then (Error ''Delay must be at least 1000ms (1 second)'', s)
      else (Ok (), s\<lparr>checkDelayCache := delay\<rparr>))"

definition getUseCustomProviderConfig :: "state \<Rightarrow> bool Result" where
  "getUseCustomProviderConfig s = Ok (useCustomProviderConfigCache s)"

subsection \<open>The filter stage of checkAndSendFindings\<close>

definition oneHourAgo :: "int \<Rightarrow> int" where
  "oneHourAgo n = n - 60 * 60 * 1000"

definition cleanedSentFindings :: "int \<Rightarrow> SentFinding list \<Rightarrow> SentFinding list" where
  "cleanedSentFindings n sentFindings = filter (\<lambda>f. timestamp f > oneHourAgo n) sentFindings"

definition finalSentIds :: "SentFinding list \<Rightarrow> string set" where
  "finalSentIds cleaned = set (map findingId cleaned)"

text \<open>
  The timestamp of a node: \<open>now\<close>, unless \<open>createdAt\<close> is present, not the empty string,
  and parses to a number.
\<close>

definition findingTimestamp :: "(string \<Rightarrow> int option) \<Rightarrow> int \<Rightarrow> node \<Rightarrow> int" where
  "findingTimestamp parse n f =
     (case createdAt f of
        None \<Rightarrow> n
      | Some c \<Rightarrow> if c = [] then n else (case parse c of None \<Rightarrow> n | Some parsed \<Rightarrow> parsed))"

definition toFinding :: "(string \<Rightarrow> int option) \<Rightarrow> int \<Rightarrow> node \<Rightarrow> FindingWithTimestamp" where
  "toFinding parse n f =
     \<lparr>getId = nodeId f,
      getTitle = title f,
      getDescription = orEmpty (description f),
      getReporter = reporter f,
      getTimestamp = findingTimestamp parse n f\<rparr>"

definition allFindings ::
  "(string \<Rightarrow> int option) \<Rightarrow> int \<Rightarrow> node list \<Rightarrow> FindingWithTimestamp list" where
  "allFindings parse n ns = map (toFinding parse n) ns"

definition recentFindings :: "int \<Rightarrow> FindingWithTimestamp list \<Rightarrow> FindingWithTimestamp list" where
  "recentFindings n fs = filter (\<lambda>finding. getTimestamp finding > oneHourAgo n) fs"

definition newFindings ::
  "string set \<Rightarrow> string set \<Rightarrow> FindingWithTimestamp list \<Rightarrow> FindingWithTimestamp list" where
  "newFindings excluded sentIds fs =
     filter (\<lambda>finding.
        let isExcludedById = getId finding \<in> excluded;
            isExcludedByReporter = getReporter finding \<in> excluded
        in \<not> isExcludedById \<and> \<not> isExcludedByReporter \<and> getId finding \<notin> sentIds) fs"

definition newSentFindings :: "FindingWithTimestamp list \<Rightarrow> SentFinding list" where
  "newSentFindings fs = map (\<lambda>finding. \<lparr>findingId = getId finding, timestamp = getTimestamp finding\<rparr>) fs"

text \<open>
  The findings one run selects, from the stored exclusion list, the sent-log the run
  starts with, the clock and the fetched nodes: the composition of the stages above, as
  checkAndSendFindings applies them.
\<close>

definition selected ::
  "string list \<Rightarrow> SentFinding list \<Rightarrow> (string \<Rightarrow> int option) \<Rightarrow> int \<Rightarrow> node list
     \<Rightarrow> FindingWithTimestamp list" where
  "selected excludedList sentFindings parse n ns =
     newFindings (set excludedList) (finalSentIds (cleanedSentFindings n sentFindings))
       (recentFindings n (allFindings parse n ns))"

subsection \<open>The fan-out of checkAndSendFindings\<close>

text \<open>A JavaScript \<open>Map\<close> keeps its keys in the order of their first insertion.\<close>

fun mapSet :: "'k \<Rightarrow> 'v \<Rightarrow> ('k \<times> 'v) list \<Rightarrow> ('k \<times> 'v) list" where
  "mapSet k v [] = [(k, v)]"
| "mapSet k v ((k', v') # m) = (if k' = k then (k, v) # m else (k', v') # mapSet k v m)"

text \<open>The body of the grouping loop, and the loop from the empty map.\<close>

definition addToGroup ::
  "FindingWithTimestamp \<Rightarrow> (string \<times> FindingWithTimestamp list) list
     \<Rightarrow> (string \<times> FindingWithTimestamp list) list" where
  "addToGroup finding m =
     (let existing = (case map_of m (getReporter finding) of None \<Rightarrow> [] | Some l \<Rightarrow> l)
      in mapSet (getReporter finding) (existing @ [finding]) m)"

definition findingsByReporter ::
  "FindingWithTimestamp list \<Rightarrow> (string \<times> FindingWithTimestamp list) list" where
  "findingsByReporter fs = fold addToGroup fs []"

text \<open>
  The names of the properties every object inherits from \<open>Object.prototype\<close>. The
  configuration is the value of \<open>JSON.parse\<close>, so its two records are such objects, and
  reading one of these names from a record that has no own property of that name
  gives the inherited value, a function or an object.
\<close>

definition objectPrototypeKeys :: "string list" where
  "objectPrototypeKeys =
     [''constructor'', ''__defineGetter__'', ''__defineSetter__'', ''hasOwnProperty'',
      ''__lookupGetter__'', ''__lookupSetter__'', ''isPrototypeOf'', ''propertyIsEnumerable'',
      ''toString'', ''valueOf'', ''__proto__'', ''toLocaleString'']"

text \<open>
  \<open>customFindingIdsType?.[reporterKey] || defaultIdsType\<close>: the kind stored under the
  key; without one, the inherited value when the key is the name of an inherited
  property (a truthy value that is neither kind), and the default kind otherwise.
\<close>

definition customTypeOrDefault ::
  "(string \<times> idsType) list option \<Rightarrow> string \<Rightarrow> idsType \<Rightarrow> idsType" where
  "customTypeOrDefault customTypes reporterKey defaultIdsTy =
     (case customTypes of
        None \<Rightarrow> defaultIdsTy
      | Some types \<Rightarrow>
          (case map_of types reporterKey of
             Some customType \<Rightarrow> customType
           | None \<Rightarrow> if reporterKey \<in> set objectPrototypeKeys then OtherValue else defaultIdsTy))"

text \<open>
  The destination and kind of one reporter group: the entry of the first key of
  \<open>customFindingIds\<close> that equals the reporter after \<open>toLowerCase\<close> (the argument
  \<open>lower\<close>) on both, with the kind read under that key; the defaults otherwise.
\<close>

definition resolveNotifyIds ::
  "(string \<Rightarrow> string) \<Rightarrow> NotifyConfig \<Rightarrow> string \<Rightarrow> idsType \<Rightarrow> string \<Rightarrow> string \<times> idsType" where
  "resolveNotifyIds lower config defaultNotifyIds defaultIdsTy rep =
     (case customFindingIds config of
        None \<Rightarrow> (defaultNotifyIds, defaultIdsTy)
      | Some custom \<Rightarrow>
          (case List.find (\<lambda>key. lower key = lower rep) (map fst custom) of
             None \<Rightarrow> (defaultNotifyIds, defaultIdsTy)
           | Some reporterKey \<Rightarrow>
               (case map_of custom reporterKey of
                  None \<Rightarrow> (defaultNotifyIds, defaultIdsTy)
                | Some customId \<Rightarrow>
                    (customId,
                     customTypeOrDefault (customFindingIdsType config) reporterKey defaultIdsTy))))"

definition formatMessage :: "string \<Rightarrow> FindingWithTimestamp \<Rightarrow> string" where
  "formatMessage rep finding =
     bell @ '' New Finding: '' @ getTitle finding @ newline @ newline
       @ ''Reporter: '' @ rep @ newline @ newline
       @ getDescription finding @ newline @ newline
       @ ''Finding ID: '' @ getId finding"

text \<open>The arguments and the standard input of the notifier process of one group.\<close>

definition groupInvocation ::
  "(string \<Rightarrow> string) \<Rightarrow> NotifyConfig \<Rightarrow> string \<Rightarrow> idsType \<Rightarrow> string
     \<Rightarrow> string \<times> FindingWithTimestamp list \<Rightarrow> string list \<times> string" where
  "groupInvocation lower config defaultNotifyIds defaultIdsTy configPath g =
     (case resolveNotifyIds lower config defaultNotifyIds defaultIdsTy (fst g) of
        (notifyIds, idsTy) \<Rightarrow>
          (let messages = map (formatMessage (fst g)) (snd g);
               bulkMessage = join (newline @ newline @ ''---'' @ newline @ newline) messages;
               flag = (if idsTy = Provider then ''-provider'' else ''-id'')
           in ([''-provider-config'', configPath, flag, notifyIds, ''-bulk''], bulkMessage)))"

text \<open>
  The promise of one group: fulfilled with a result (\<open>Inr\<close>) by the first handler that
  runs, or rejected (\<open>Inl\<close>) with the message of the exception that \<open>spawn\<close> threw in
  its executor. And what the handler of a group writes to the console.
\<close>

definition sendPromise :: "outcome \<Rightarrow> string + unit Result" where
  "sendPromise out =
     (case out of
        Close code errorOutput \<Rightarrow> Inr (Ok ())
      | Timeout \<Rightarrow> Inr (Ok ())
      | SpawnError m \<Rightarrow> Inr (Error (''Failed to execute notify: '' @ m))
      | SpawnThrows m \<Rightarrow> Inl m)"

definition handlerLog :: "string \<Rightarrow> outcome \<Rightarrow> effect list" where
  "handlerLog rep out =
     (case out of
        Close code errorOutput \<Rightarrow> (if code \<noteq> Some 0 then [LogNotifyFailed rep code errorOutput] else [])
      | Timeout \<Rightarrow> []
      | SpawnError m \<Rightarrow> [LogProcessError rep m]
      | SpawnThrows m \<Rightarrow> [])"

text \<open>
  \<open>Promise.all\<close> on promises of which the rejected ones are rejected before it is
  called: it is rejected with the reason of the first rejected promise of the list, and
  fulfilled with the list of the values when there is none.
\<close>

fun promiseAll :: "(string + 'a) list \<Rightarrow> string + 'a list" where
  "promiseAll [] = Inr []"
| "promiseAll (Inl m # ps) = Inl m"
| "promiseAll (Inr v # ps) = (case promiseAll ps of Inl m \<Rightarrow> Inl m | Inr vs \<Rightarrow> Inr (v # vs))"

text \<open>
  The path of the provider configuration that the run passes to the notifier (the
  constant \<open>providerConfigPath\<close> of checkAndSendFindings).
\<close>

definition providerConfigPath :: "env \<Rightarrow> state \<Rightarrow> string" where
  "providerConfigPath e s =
     (let useCustom = (case getUseCustomProviderConfig s of Ok v \<Rightarrow> v | Error m \<Rightarrow> True)
      in if useCustom then providerConfigFile e else defaultNotifyProviderConfigFile e)"

text \<open>The calls of \<open>spawn\<close> that the loop over the groups makes, in the order of the groups.\<close>

definition invocations ::
  "env \<Rightarrow> NotifyConfig \<Rightarrow> string \<Rightarrow> idsType \<Rightarrow> FindingWithTimestamp list \<Rightarrow> state
     \<Rightarrow> (string list \<times> string) list" where
  "invocations e config defaultNotifyIds defaultIdsTy fs s =
     map (groupInvocation (toLowerCase e) config defaultNotifyIds defaultIdsTy
            (providerConfigPath e s))
       (findingsByReporter fs)"

text \<open>
  The loop over the groups calls \<open>spawn\<close> for every group (the executor of a promise
  runs at once, and an exception in it rejects the promise and does not leave the
  loop), then \<open>Promise.all\<close> waits. The handlers run in the order in which the processes
  end, so the trace lists their console lines by \<open>notifyEnds\<close>; when \<open>Promise.all\<close> is
  rejected the run does not wait for the processes, and the trace has the lines of the
  handlers that ran before the \<open>catch\<close> block. The value is what \<open>Promise.all\<close> settles
  to.
\<close>

definition fanOut ::
  "env \<Rightarrow> NotifyConfig \<Rightarrow> string \<Rightarrow> idsType \<Rightarrow> FindingWithTimestamp list \<Rightarrow> state
     \<Rightarrow> (string + unit Result list) \<times> state" where
  "fanOut e config defaultNotifyIds defaultIdsTy fs s =
     (let groups = findingsByReporter fs;
          calls = invocations e config defaultNotifyIds defaultIdsTy fs s;
          outcomes = map (\<lambda>(args, bulkMessage). notify e args bulkMessage) calls;
          ends = map (\<lambda>(args, bulkMessage). notifyEnds e args bulkMessage) calls;
          settled = promiseAll (map sendPromise outcomes);
          handlers = sort_key fst (zip ends (zip (map fst groups) outcomes));
          handled = (case settled of
                       Inl m \<Rightarrow> filter (\<lambda>h. fst h < rejectionDelivered e) handlers
                     | Inr results \<Rightarrow> handlers)
      in (settled,
          s\<lparr>trace := trace s
                @ map (\<lambda>(args, bulkMessage). Spawn args bulkMessage) calls
                @ concat (map (\<lambda>(t, rep, out). handlerLog rep out) handled)\<rparr>))"

subsection \<open>checkAndSendFindings\<close>

definition checkAndSendFindings :: "env \<Rightarrow> state \<Rightarrow> unit Result \<times> state" where
  "checkAndSendFindings e s =
     (case getExcludedFindings e of
        Error m \<Rightarrow> (Error m, s)
      | Ok excludedList \<Rightarrow>
     (case getSentFindings s of
        Error m \<Rightarrow> (Error m, s)
      | Ok sentFindings \<Rightarrow>
     (let cleaned = cleanedSentFindings (now e) sentFindings;
          s1 = (if length cleaned \<noteq> length sentFindings
                then snd (saveSentFindings cleaned s) else s)
      in
     (case graphqlExecute e of
        Inl m \<Rightarrow> (Error (''Failed to check findings: '' @ m), s1)
      | Inr resp \<Rightarrow>
     (case errors resp of
        Some (m # ms) \<Rightarrow>
          (Error (''GraphQL query failed: '' @ join '', '' (m # ms)),
           s1\<lparr>trace := trace s1 @ [LogGraphQLErrors (m # ms)]\<rparr>)
      | _ \<Rightarrow>
     (case nodes resp of
        None \<Rightarrow> (Ok (), s1)
      | Some ns \<Rightarrow>
     (let new = newFindings (set excludedList) (finalSentIds cleaned)
                  (recentFindings (now e) (allFindings (parseDate e) (now e) ns))
      in
      if length new = 0 then (Ok (), s1)
      else
     (let updatedSent = cleaned @ newSentFindings new;
          s2 = snd (saveSentFindings updatedSent s1)
      in
     (case getNotifyIds e of
        Error m \<Rightarrow> (Error m, s2)
      | Ok config \<Rightarrow>
     (let defaultNotifyIds = orEmpty (defaultIds config);
          defaultIdsTy = (case defaultIdsType config of None \<Rightarrow> Id | Some t \<Rightarrow> t)
      in
      if defaultNotifyIds = [] then (Error ''No notify IDs configured'', s2)
      else
     (case fanOut e config defaultNotifyIds defaultIdsTy new s2 of
        (Inl m, s3) \<Rightarrow> (Error (''Failed to check findings: '' @ m), s3)
      | (Inr results, s3) \<Rightarrow>
          (Ok (),
           s3\<lparr>trace := trace s3
                 @ [Emit (length (newSentFindings new)) (length updatedSent)]\<rparr>))))))))))))"

definition manualCheckFindings :: "env \<Rightarrow> state \<Rightarrow> string Result \<times> state" where
  "manualCheckFindings e s =
     (case checkAndSendFindings e s of
        (Error m, s') \<Rightarrow> (Error m, s')
      | (Ok u, s') \<Rightarrow> (Ok ''Findings checked successfully'', s'))"

subsection \<open>The scheduler\<close>

text \<open>
  \<open>checkInterval\<close> holds the delay of the interval timer that is armed, if one is.
  \<open>startCheckingFindings\<close> clears it and arms a new one with the stored delay;
  \<open>tick\<close> is the callback of the timer; \<open>registeredSaveCheckDelay\<close> is the function
  that \<open>init\<close> registers under the name saveCheckDelay.
\<close>

definition startCheckingFindings :: "state \<Rightarrow> state" where
  "startCheckingFindings s =
     (let s1 = (case checkInterval s of
                  None \<Rightarrow> s
                | Some t \<Rightarrow> s\<lparr>trace := trace s @ [ClearInterval t]\<rparr>);
          delay = (case getCheckDelay s1 of Ok d \<Rightarrow> d | Error m \<Rightarrow> 60000)
      in s1\<lparr>checkInterval := Some delay, trace := trace s1 @ [SetInterval delay]\<rparr>)"

definition tick :: "env \<Rightarrow> state \<Rightarrow> state" where
  "tick e s =
     (case checkAndSendFindings e s of
        (Error m, s') \<Rightarrow> s'\<lparr>trace := trace s' @ [LogCheckError m]\<rparr>
      | (Ok u, s') \<Rightarrow> s')"

definition registeredSaveCheckDelay :: "real \<Rightarrow> state \<Rightarrow> unit Result \<times> state" where
  "registeredSaveCheckDelay delay s =
     (case saveCheckDelay delay s of
        (Ok u, s') \<Rightarrow> (Ok u, startCheckingFindings s')
      | (Error m, s') \<Rightarrow> (Error m, s'))"

text \<open>
  The module-level variables as the module initialises them, and \<open>init\<close>, which
  registers the API and starts the timer.
\<close>

definition initialState :: state where
  "initialState =
     \<lparr>sentFindingsCache = [], checkDelayCache = 60000, useCustomProviderConfigCache = True,
      checkInterval = None, trace = []\<rparr>"

definition init :: state where
  "init = startCheckingFindings initialState"

subsection \<open>Notions used in the statements\<close>

text \<open>The answer carries GraphQL errors (\<open>response.errors && response.errors.length > 0\<close>).\<close>

definition hasErrors :: "response \<Rightarrow> bool" where
  "hasErrors resp = (case errors resp of Some (m # ms) \<Rightarrow> True | _ \<Rightarrow> False)"

text \<open>
  The nodes a run goes on to filter: those of the answer, when the query neither threw
  nor answered with errors and the answer has nodes.
\<close>

definition fetchedNodes :: "env \<Rightarrow> node list" where
  "fetchedNodes e =
     (case graphqlExecute e of
        Inl m \<Rightarrow> []
      | Inr resp \<Rightarrow> if hasErrors resp then [] else (case nodes resp of None \<Rightarrow> [] | Some ns \<Rightarrow> ns))"

text \<open>The state after lines 495 to 499: the pruned sent-log is saved when pruning dropped an entry.\<close>

definition pruneSentFindings :: "int \<Rightarrow> state \<Rightarrow> state" where
  "pruneSentFindings n s =
     (if length (cleanedSentFindings n (sentFindingsCache s)) \<noteq> length (sentFindingsCache s)
      then snd (saveSentFindings (cleanedSentFindings n (sentFindingsCache s)) s)
      else s)"

text \<open>The message of the first call of \<open>spawn\<close> that threw, among the outcomes of the calls of a run.\<close>

fun firstThrown :: "outcome list \<Rightarrow> string option" where
  "firstThrown [] = None"
| "firstThrown (SpawnThrows m # outs) = Some m"
| "firstThrown (out # outs) = firstThrown outs"

fun isSpawn :: "effect \<Rightarrow> bool" where
  "isSpawn (Spawn args bulkMessage) = True"
| "isSpawn x = False"

text \<open>
  The creation time a node carries: the parsed \<open>createdAt\<close>, when the field is
  present, not empty and parses.
\<close>

definition parsedCreatedAt :: "(string \<Rightarrow> int option) \<Rightarrow> node \<Rightarrow> int option" where
  "parsedCreatedAt parse f =
     (case createdAt f of None \<Rightarrow> None | Some c \<Rightarrow> if c = [] then None else parse c)"

text \<open>Successive runs, each starting from the state the one before left.\<close>

fun runs :: "env list \<Rightarrow> state \<Rightarrow> state" where
  "runs [] s = s"
| "runs (e # es) s = runs es (snd (checkAndSendFindings e s))"

subsection \<open>Example inputs\<close>

text \<open>
  Inputs at which the theorems below are evaluated. \<open>exampleParse\<close> is the table of
  \<open>new Date(s).getTime()\<close> for the two dates the examples use, and NaN for any other
  string of the examples; \<open>exampleNow\<close> is 2024-01-01T02:00:00Z. The strings of
  \<open>exampleEnv\<close> are ASCII, so its \<open>toLowerCase\<close> is \<open>asciiLower\<close>; \<open>exampleLower\<close> is
  \<open>toLowerCase\<close> on ASCII strings and on the capital letter E with acute accent
  (U+00C9, the bytes C3 89), which it folds to the small letter (U+00E9, the bytes
  C3 A9).
\<close>

definition exampleLower :: "string \<Rightarrow> string" where
  "exampleLower s = (if s = [CHR 0xC3, CHR 0x89] then [CHR 0xC3, CHR 0xA9] else asciiLower s)"

definition exampleParse :: "string \<Rightarrow> int option" where
  "exampleParse c =
     (if c = ''2024-01-01T00:00:00.000Z'' then Some 1704067200000
      else if c = ''2024-01-01T01:50:00.000Z'' then Some 1704073800000
      else None)"

definition exampleNow :: int where
  "exampleNow = 1704074400000"

definition exampleNode :: "string \<Rightarrow> string \<Rightarrow> string option \<Rightarrow> node" where
  "exampleNode i r c =
     \<lparr>nodeId = i, title = ''Exposed file'', description = None, reporter = r,
      host = ''example.com'', path = ''/backup.zip'', createdAt = c\<rparr>"

definition exampleConfig :: NotifyConfig where
  "exampleConfig =
     \<lparr>defaultIds = Some ''slack'', defaultIdsType = None,
      customFindingIds = Some [(''sql injection'', ''pager'')],
      customFindingIdsType = Some [(''sql injection'', Provider)]\<rparr>"

text \<open>
  A configuration with a default destination and a destination under the key that is
  the small letter e with acute accent.
\<close>

definition accentConfig :: NotifyConfig where
  "accentConfig =
     \<lparr>defaultIds = Some ''slack'', defaultIdsType = None,
      customFindingIds = Some [([CHR 0xC3, CHR 0xA9], ''pager'')],
      customFindingIdsType = Some [([CHR 0xC3, CHR 0xA9], Provider)]\<rparr>"

text \<open>
  A configuration whose default kind is \<open>"provider"\<close>, with a destination under the key
  "constructor" and no kind stored under it.
\<close>

definition constructorConfig :: NotifyConfig where
  "constructorConfig =
     \<lparr>defaultIds = Some ''slack'', defaultIdsType = Some Provider,
      customFindingIds = Some [(''constructor'', ''pager'')],
      customFindingIdsType = Some []\<rparr>"

text \<open>A configuration with a destination for the reporter R1 and no default destination.\<close>

definition overrideOnlyConfig :: NotifyConfig where
  "overrideOnlyConfig =
     \<lparr>defaultIds = None, defaultIdsType = None,
      customFindingIds = Some [(''R1'', ''pager'')],
      customFindingIdsType = Some [(''R1'', Id)]\<rparr>"

definition exampleEnv ::
  "string list \<Rightarrow> int \<Rightarrow> node list \<Rightarrow> NotifyConfig \<Rightarrow> outcome \<Rightarrow> env" where
  "exampleEnv ex n ns config out =
     \<lparr>excludedRead = Inr ex, now = n,
      graphqlExecute = Inr \<lparr>errors = None, nodes = Some ns\<rparr>,
      parseDate = exampleParse,
      notifyIdsRead = Inr config,
      providerConfigFile = ''/home/u/.config/notify-caido/provider-config.yaml'',
      defaultNotifyProviderConfigFile = ''/home/u/.config/notify/provider-config.yaml'',
      notify = (\<lambda>args bulkMessage. out),
      notifyEnds = (\<lambda>args bulkMessage. 0),
      rejectionDelivered = 0,
      toLowerCase = asciiLower\<rparr>"

text \<open>A sent-log with one entry two hours old and one entry ten minutes old.\<close>

definition exampleLog :: "SentFinding list" where
  "exampleLog =
     [\<lparr>findingId = ''f0'', timestamp = 1704067200000\<rparr>,
      \<lparr>findingId = ''f9'', timestamp = 1704073800000\<rparr>]"

section \<open>Properties\<close>

subsection \<open>Pruning and selection\<close>

lemma cleaned_same_length:
  "length (cleanedSentFindings n l) = length l \<Longrightarrow> cleanedSentFindings n l = l"
  unfolding cleanedSentFindings_def
  by (metis filter_True length_filter_less less_irrefl_nat filter_id_conv)

lemma set_cleaned:
  "x \<in> set (cleanedSentFindings n l) \<longleftrightarrow> x \<in> set l \<and> timestamp x > n - 3600000"
  by (simp add: cleanedSentFindings_def oneHourAgo_def)

lemma selected_Nil: "selected ex l parse n [] = []"
  by (simp add: selected_def allFindings_def recentFindings_def newFindings_def)

text \<open>
  A finding is selected exactly when it comes from a fetched node, is younger than
  one hour, neither its id nor its reporter is an entry of the exclusion list (both
  compared exactly), and no entry of the sent-log younger than one hour has its id.
\<close>

lemma set_selected:
  "f \<in> set (selected ex l parse n ns) \<longleftrightarrow>
     f \<in> toFinding parse n ` set ns \<and> getTimestamp f > n - 3600000
     \<and> getId f \<notin> set ex \<and> getReporter f \<notin> set ex
     \<and> getId f \<notin> findingId ` {x \<in> set l. timestamp x > n - 3600000}"
  by (auto simp: selected_def newFindings_def recentFindings_def allFindings_def finalSentIds_def
        cleanedSentFindings_def oneHourAgo_def Let_def)

lemma sentFindingsCache_pruneSentFindings:
  "sentFindingsCache (pruneSentFindings n s) = cleanedSentFindings n (sentFindingsCache s)"
  by (simp add: pruneSentFindings_def saveSentFindings_def cleaned_same_length)

lemma pruneSentFindings_frame:
  "checkDelayCache (pruneSentFindings n s) = checkDelayCache s"
  "useCustomProviderConfigCache (pruneSentFindings n s) = useCustomProviderConfigCache s"
  "checkInterval (pruneSentFindings n s) = checkInterval s"
  by (simp_all add: pruneSentFindings_def saveSentFindings_def)

lemma pruneSentFindings_spawns:
  "filter isSpawn (trace (pruneSentFindings n s)) = filter isSpawn (trace s)"
  by (simp add: pruneSentFindings_def saveSentFindings_def)

lemma pruneSentFindings_unchanged:
  "\<forall>x \<in> set (sentFindingsCache s). timestamp x > n - 3600000 \<Longrightarrow> pruneSentFindings n s = s"
  by (simp add: pruneSentFindings_def cleanedSentFindings_def oneHourAgo_def)

lemma pruneSentFindings_trace:
  "\<exists>P. trace (pruneSentFindings n s) = trace s @ P \<and> (\<forall>x \<in> set P. \<not> isSpawn x)"
  by (simp add: pruneSentFindings_def saveSentFindings_def)

lemma findingTimestamp_parsed:
  "findingTimestamp parse n nd = (case parsedCreatedAt parse nd of None \<Rightarrow> n | Some t \<Rightarrow> t)"
  by (simp add: findingTimestamp_def parsedCreatedAt_def split: option.splits)

subsection \<open>The paths of a run\<close>

lemma no_errors_case:
  "\<not> hasErrors resp \<Longrightarrow> case_option y (case_list y x) (errors resp) = y"
  by (simp add: hasErrors_def split: option.splits list.splits)

lemmas run_defs = checkAndSendFindings_def getExcludedFindings_def getSentFindings_def
  getNotifyIds_def pruneSentFindings_def selected_def Let_def

text \<open>What checkAndSendFindings returns on each of its eight paths.\<close>

lemma run_ExcludedFails:
  "excludedRead e = Inl m \<Longrightarrow>
   checkAndSendFindings e s = (Error (''Failed to read excluded findings: '' @ m), s)"
  by (simp add: run_defs)

lemma run_FetchThrows:
  "excludedRead e = Inr ex \<Longrightarrow> graphqlExecute e = Inl m \<Longrightarrow>
   checkAndSendFindings e s = (Error (''Failed to check findings: '' @ m), pruneSentFindings (now e) s)"
  by (simp add: run_defs)

lemma run_FetchErrors:
  "excludedRead e = Inr ex \<Longrightarrow> graphqlExecute e = Inr resp \<Longrightarrow> errors resp = Some (m # ms) \<Longrightarrow>
   checkAndSendFindings e s =
     (Error (''GraphQL query failed: '' @ join '', '' (m # ms)),
      (pruneSentFindings (now e) s)
        \<lparr>trace := trace (pruneSentFindings (now e) s) @ [LogGraphQLErrors (m # ms)]\<rparr>)"
  by (simp add: run_defs)

lemma run_NoNodes:
  "excludedRead e = Inr ex \<Longrightarrow> graphqlExecute e = Inr resp \<Longrightarrow> \<not> hasErrors resp \<Longrightarrow>
   nodes resp = None \<Longrightarrow>
   checkAndSendFindings e s = (Ok (), pruneSentFindings (now e) s)"
  by (simp add: run_defs no_errors_case)

lemma run_NothingNew:
  "excludedRead e = Inr ex \<Longrightarrow> graphqlExecute e = Inr resp \<Longrightarrow> \<not> hasErrors resp \<Longrightarrow>
   nodes resp = Some ns \<Longrightarrow>
   selected ex (sentFindingsCache s) (parseDate e) (now e) ns = [] \<Longrightarrow>
   checkAndSendFindings e s = (Ok (), pruneSentFindings (now e) s)"
  by (simp add: run_defs no_errors_case)

lemma run_ConfigFails:
  "excludedRead e = Inr ex \<Longrightarrow> graphqlExecute e = Inr resp \<Longrightarrow> \<not> hasErrors resp \<Longrightarrow>
   nodes resp = Some ns \<Longrightarrow>
   selected ex (sentFindingsCache s) (parseDate e) (now e) ns \<noteq> [] \<Longrightarrow>
   notifyIdsRead e = Inl m \<Longrightarrow>
   checkAndSendFindings e s =
     (Error (''Failed to read notify IDs: '' @ m),
      snd (saveSentFindings
             (cleanedSentFindings (now e) (sentFindingsCache s)
                @ newSentFindings (selected ex (sentFindingsCache s) (parseDate e) (now e) ns))
             (pruneSentFindings (now e) s)))"
  by (simp add: run_defs no_errors_case)

lemma run_NoIds:
  "excludedRead e = Inr ex \<Longrightarrow> graphqlExecute e = Inr resp \<Longrightarrow> \<not> hasErrors resp \<Longrightarrow>
   nodes resp = Some ns \<Longrightarrow>
   selected ex (sentFindingsCache s) (parseDate e) (now e) ns \<noteq> [] \<Longrightarrow>
   notifyIdsRead e = Inr config \<Longrightarrow> orEmpty (defaultIds config) = [] \<Longrightarrow>
   checkAndSendFindings e s =
     (Error ''No notify IDs configured'',
      snd (saveSentFindings
             (cleanedSentFindings (now e) (sentFindingsCache s)
                @ newSentFindings (selected ex (sentFindingsCache s) (parseDate e) (now e) ns))
             (pruneSentFindings (now e) s)))"
  by (simp add: run_defs no_errors_case)

lemma run_FanOut:
  "excludedRead e = Inr ex \<Longrightarrow> graphqlExecute e = Inr resp \<Longrightarrow> \<not> hasErrors resp \<Longrightarrow>
   nodes resp = Some ns \<Longrightarrow>
   selected ex (sentFindingsCache s) (parseDate e) (now e) ns \<noteq> [] \<Longrightarrow>
   notifyIdsRead e = Inr config \<Longrightarrow> orEmpty (defaultIds config) \<noteq> [] \<Longrightarrow>
   checkAndSendFindings e s =
     (case fst (fanOut e config (orEmpty (defaultIds config))
              (case defaultIdsType config of None \<Rightarrow> Id | Some t \<Rightarrow> t)
              (selected ex (sentFindingsCache s) (parseDate e) (now e) ns)
              (snd (saveSentFindings
                (cleanedSentFindings (now e) (sentFindingsCache s)
                   @ newSentFindings (selected ex (sentFindingsCache s) (parseDate e) (now e) ns))
                (pruneSentFindings (now e) s)))) of
        Inl thrown \<Rightarrow>
          (Error (''Failed to check findings: '' @ thrown),
           snd (fanOut e config (orEmpty (defaultIds config))
              (case defaultIdsType config of None \<Rightarrow> Id | Some t \<Rightarrow> t)
              (selected ex (sentFindingsCache s) (parseDate e) (now e) ns)
              (snd (saveSentFindings
                (cleanedSentFindings (now e) (sentFindingsCache s)
                   @ newSentFindings (selected ex (sentFindingsCache s) (parseDate e) (now e) ns))
                (pruneSentFindings (now e) s)))))
      | Inr results \<Rightarrow>
     (Ok (),
      (snd (fanOut e config (orEmpty (defaultIds config))
              (case defaultIdsType config of None \<Rightarrow> Id | Some t \<Rightarrow> t)
              (selected ex (sentFindingsCache s) (parseDate e) (now e) ns)
              (snd (saveSentFindings
                (cleanedSentFindings (now e) (sentFindingsCache s)
                   @ newSentFindings (selected ex (sentFindingsCache s) (parseDate e) (now e) ns))
                (pruneSentFindings (now e) s)))))
       \<lparr>trace := trace (snd (fanOut e config (orEmpty (defaultIds config))
              (case defaultIdsType config of None \<Rightarrow> Id | Some t \<Rightarrow> t)
              (selected ex (sentFindingsCache s) (parseDate e) (now e) ns)
              (snd (saveSentFindings
                (cleanedSentFindings (now e) (sentFindingsCache s)
                   @ newSentFindings (selected ex (sentFindingsCache s) (parseDate e) (now e) ns))
                (pruneSentFindings (now e) s)))))
          @ [Emit (length (newSentFindings (selected ex (sentFindingsCache s) (parseDate e) (now e) ns)))
               (length (cleanedSentFindings (now e) (sentFindingsCache s)
                   @ newSentFindings (selected ex (sentFindingsCache s) (parseDate e) (now e) ns)))]\<rparr>))"
  by (simp add: run_defs no_errors_case split: prod.split sum.split)

lemma run_paths [case_names ExcludedFails FetchThrows FetchErrors NoNodes NothingNew ConfigFails NoIds FanOut]:
  obtains
    m where "excludedRead e = Inl m"
  | ex m where "excludedRead e = Inr ex" "graphqlExecute e = Inl m"
  | ex resp m ms where "excludedRead e = Inr ex" "graphqlExecute e = Inr resp"
      "errors resp = Some (m # ms)"
  | ex resp where "excludedRead e = Inr ex" "graphqlExecute e = Inr resp" "\<not> hasErrors resp"
      "nodes resp = None"
  | ex resp ns where "excludedRead e = Inr ex" "graphqlExecute e = Inr resp" "\<not> hasErrors resp"
      "nodes resp = Some ns" "selected ex (sentFindingsCache s) (parseDate e) (now e) ns = []"
  | ex resp ns m where "excludedRead e = Inr ex" "graphqlExecute e = Inr resp" "\<not> hasErrors resp"
      "nodes resp = Some ns" "selected ex (sentFindingsCache s) (parseDate e) (now e) ns \<noteq> []"
      "notifyIdsRead e = Inl m"
  | ex resp ns config where "excludedRead e = Inr ex" "graphqlExecute e = Inr resp" "\<not> hasErrors resp"
      "nodes resp = Some ns" "selected ex (sentFindingsCache s) (parseDate e) (now e) ns \<noteq> []"
      "notifyIdsRead e = Inr config" "orEmpty (defaultIds config) = []"
  | ex resp ns config where "excludedRead e = Inr ex" "graphqlExecute e = Inr resp" "\<not> hasErrors resp"
      "nodes resp = Some ns" "selected ex (sentFindingsCache s) (parseDate e) (now e) ns \<noteq> []"
      "notifyIdsRead e = Inr config" "orEmpty (defaultIds config) \<noteq> []"
proof (cases "excludedRead e")
  case (Inl m) then show ?thesis using that(1) by blast
next
  case ex: (Inr ex)
  show ?thesis
  proof (cases "graphqlExecute e")
    case (Inl m) with ex show ?thesis using that(2) by blast
  next
    case resp: (Inr resp)
    show ?thesis
    proof (cases "hasErrors resp")
      case True
      then obtain m ms where "errors resp = Some (m # ms)"
        by (auto simp: hasErrors_def split: option.splits list.splits)
      with ex resp show ?thesis using that(3) by blast
    next
      case noerr: False
      show ?thesis
      proof (cases "nodes resp")
        case None with ex resp noerr show ?thesis using that(4) by blast
      next
        case ns: (Some ns)
        show ?thesis
        proof (cases "selected ex (sentFindingsCache s) (parseDate e) (now e) ns = []")
          case True with ex resp noerr ns show ?thesis using that(5) by blast
        next
          case new: False
          show ?thesis
          proof (cases "notifyIdsRead e")
            case (Inl m) with ex resp noerr ns new show ?thesis using that(6) by blast
          next
            case (Inr config)
            with ex resp noerr ns new show ?thesis using that(7,8) by (cases "orEmpty (defaultIds config) = []") blast+
          qed
        qed
      qed
    qed
  qed
qed

lemma fetchedNodes_simps:
  "graphqlExecute e = Inl m \<Longrightarrow> fetchedNodes e = []"
  "graphqlExecute e = Inr resp \<Longrightarrow> hasErrors resp \<Longrightarrow> fetchedNodes e = []"
  "graphqlExecute e = Inr resp \<Longrightarrow> \<not> hasErrors resp \<Longrightarrow> nodes resp = None \<Longrightarrow> fetchedNodes e = []"
  "graphqlExecute e = Inr resp \<Longrightarrow> \<not> hasErrors resp \<Longrightarrow> nodes resp = Some ns \<Longrightarrow> fetchedNodes e = ns"
  by (simp_all add: fetchedNodes_def)

lemma selected_nonempty_fetched:
  "selected ex l parse n (fetchedNodes e) \<noteq> [] \<Longrightarrow>
   \<exists>resp ns. graphqlExecute e = Inr resp \<and> \<not> hasErrors resp \<and> nodes resp = Some ns
      \<and> fetchedNodes e = ns"
  by (auto simp: fetchedNodes_def selected_Nil split: sum.splits option.splits if_splits)

subsection \<open>The fan-out\<close>

lemma map_of_mapSet: "map_of (mapSet k v m) = (map_of m)(k \<mapsto> v)"
  by (induction m) (auto simp: fun_eq_iff)

lemma keys_mapSet: "fst ` set (mapSet k v m) = insert k (fst ` set m)"
  by (simp add: dom_map_of_conv_image_fst [symmetric] map_of_mapSet)

lemma distinct_mapSet: "distinct (map fst m) \<Longrightarrow> distinct (map fst (mapSet k v m))"
  by (induction m) (auto simp: keys_mapSet)

lemma map_of_addToGroup:
  "map_of (addToGroup f m) r =
     (if getReporter f = r then Some ((case map_of m r of None \<Rightarrow> [] | Some l \<Rightarrow> l) @ [f])
      else map_of m r)"
  by (simp add: addToGroup_def Let_def map_of_mapSet)

lemma distinct_addToGroup: "distinct (map fst m) \<Longrightarrow> distinct (map fst (addToGroup f m))"
  by (simp add: addToGroup_def Let_def distinct_mapSet)

lemma fold_groups_map_of:
  "map_of (fold addToGroup fs m) r =
     (if filter (\<lambda>f. getReporter f = r) fs = [] then map_of m r
      else Some ((case map_of m r of None \<Rightarrow> [] | Some l \<Rightarrow> l) @ filter (\<lambda>f. getReporter f = r) fs))"
proof (induction fs arbitrary: m)
  case Nil
  show ?case by simp
next
  case (Cons f fs)
  show ?case
    by (simp add: Cons.IH map_of_addToGroup split: option.split)
qed

lemma fold_groups_distinct:
  "distinct (map fst m) \<Longrightarrow> distinct (map fst (fold addToGroup fs m))"
  by (induction fs arbitrary: m) (simp_all add: distinct_addToGroup)

text \<open>
  The groups: one for each reporter of a finding of the list, holding the findings of
  that reporter (compared exactly) in the order of the list.
\<close>

lemma findingsByReporter_iff:
  "(r, g) \<in> set (findingsByReporter fs) \<longleftrightarrow>
     g \<noteq> [] \<and> g = filter (\<lambda>f. getReporter f = r) fs"
proof -
  have d: "distinct (map fst (findingsByReporter fs))"
    unfolding findingsByReporter_def by (rule fold_groups_distinct) simp
  have "(r, g) \<in> set (findingsByReporter fs) \<longleftrightarrow> map_of (findingsByReporter fs) r = Some g"
    using d by simp
  also have "\<dots> \<longleftrightarrow> g \<noteq> [] \<and> g = filter (\<lambda>f. getReporter f = r) fs"
    unfolding findingsByReporter_def fold_groups_map_of by auto
  finally show ?thesis .
qed

lemma handlerLog_not_spawn: "x \<in> set (handlerLog rep out) \<Longrightarrow> \<not> isSpawn x"
  by (auto simp: handlerLog_def split: outcome.splits if_splits)

text \<open>
  The trace of the fan-out: one call of \<open>spawn\<close> for each group, in the order of the
  groups, then console lines.
\<close>

lemma fanOut_trace:
  "\<exists>logs. trace (snd (fanOut e config d dt fs s)) =
       trace s
       @ map (\<lambda>call. Spawn (fst call) (snd call)) (invocations e config d dt fs s)
       @ logs
     \<and> (\<forall>x \<in> set logs. \<not> isSpawn x)"
  by (auto simp: fanOut_def Let_def split_def dest: handlerLog_not_spawn)

lemma fanOut_frame:
  "sentFindingsCache (snd (fanOut e config d dt fs s)) = sentFindingsCache s"
  "checkDelayCache (snd (fanOut e config d dt fs s)) = checkDelayCache s"
  "useCustomProviderConfigCache (snd (fanOut e config d dt fs s)) = useCustomProviderConfigCache s"
  "checkInterval (snd (fanOut e config d dt fs s)) = checkInterval s"
  by (simp_all add: fanOut_def Let_def)

text \<open>What \<open>Promise.all\<close> settles to in the fan-out.\<close>

lemma fanOut_settled:
  "fst (fanOut e config d dt fs s) =
     promiseAll (map (\<lambda>call. sendPromise (notify e (fst call) (snd call)))
       (invocations e config d dt fs s))"
  by (simp add: fanOut_def Let_def split_def o_def)

lemma providerConfigPath_saved:
  "providerConfigPath e (snd (saveSentFindings l s)) = providerConfigPath e s"
  "providerConfigPath e (pruneSentFindings n s) = providerConfigPath e s"
  by (simp_all add: providerConfigPath_def getUseCustomProviderConfig_def saveSentFindings_def
        pruneSentFindings_def)

lemma invocations_saved:
  "invocations e config d dt fs (snd (saveSentFindings l (pruneSentFindings n s)))
     = invocations e config d dt fs s"
  by (simp add: invocations_def providerConfigPath_saved)

text \<open>
  \<open>Promise.all\<close> is rejected exactly when a promise of the list is, and then with the
  reason of one of them; otherwise it is fulfilled.
\<close>

lemma promiseAll_rejected: "promiseAll ps = Inl m \<Longrightarrow> Inl m \<in> set ps"
proof (induction ps rule: promiseAll.induct)
  case 1
  then show ?case by simp
next
  case (2 m' ps)
  then show ?case by simp
next
  case (3 v ps)
  then show ?case by (simp split: sum.splits)
qed

lemma promiseAll_fulfilled: "(\<exists>vs. promiseAll ps = Inr vs) \<longleftrightarrow> (\<forall>m. Inl m \<notin> set ps)"
proof (induction ps rule: promiseAll.induct)
  case 1
  then show ?case by simp
next
  case (2 m' ps)
  then show ?case by auto
next
  case (3 v ps)
  then show ?case by (auto split: sum.splits)
qed

subsection \<open>The sent-log, the result and the trace of a run\<close>

text \<open>The sent-log a run leaves, when it gets past reading the exclusion list.\<close>

lemma run_cache:
  assumes "excludedRead e = Inr ex"
  shows "sentFindingsCache (snd (checkAndSendFindings e s)) =
           cleanedSentFindings (now e) (sentFindingsCache s)
             @ newSentFindings (selected ex (sentFindingsCache s) (parseDate e) (now e) (fetchedNodes e))"
proof (cases rule: run_paths [where e=e and s=s])
  case (ExcludedFails m)
  with assms show ?thesis by simp
next
  case (FetchThrows ex' m)
  with assms show ?thesis
    by (simp add: run_FetchThrows fetchedNodes_def selected_Nil newSentFindings_def
          sentFindingsCache_pruneSentFindings)
next
  case (FetchErrors ex' resp m ms)
  with assms show ?thesis
    by (simp add: run_FetchErrors fetchedNodes_def hasErrors_def selected_Nil newSentFindings_def
          sentFindingsCache_pruneSentFindings)
next
  case (NoNodes ex' resp)
  with assms show ?thesis
    by (simp add: run_NoNodes fetchedNodes_def selected_Nil newSentFindings_def
          sentFindingsCache_pruneSentFindings)
next
  case (NothingNew ex' resp ns)
  with assms show ?thesis
    by (simp add: run_NothingNew fetchedNodes_def newSentFindings_def
          sentFindingsCache_pruneSentFindings)
next
  case (ConfigFails ex' resp ns m)
  with assms show ?thesis
    by (simp add: run_ConfigFails fetchedNodes_def saveSentFindings_def)
next
  case (NoIds ex' resp ns config)
  with assms show ?thesis
    by (simp add: run_NoIds fetchedNodes_def saveSentFindings_def)
next
  case (FanOut ex' resp ns config)
  with assms show ?thesis
    by (simp add: run_FanOut fetchedNodes_def saveSentFindings_def fanOut_frame split: sum.split)
qed

text \<open>The result of a run, path by path.\<close>

lemma run_result:
  "fst (checkAndSendFindings e s) =
     (case excludedRead e of
        Inl m \<Rightarrow> Error (''Failed to read excluded findings: '' @ m)
      | Inr ex \<Rightarrow>
          (case graphqlExecute e of
             Inl m \<Rightarrow> Error (''Failed to check findings: '' @ m)
           | Inr resp \<Rightarrow>
               (case errors resp of
                  Some (m # ms) \<Rightarrow> Error (''GraphQL query failed: '' @ join '', '' (m # ms))
                | _ \<Rightarrow>
                    if selected ex (sentFindingsCache s) (parseDate e) (now e) (fetchedNodes e) = []
                    then Ok ()
                    else (case notifyIdsRead e of
                            Inl m \<Rightarrow> Error (''Failed to read notify IDs: '' @ m)
                          | Inr config \<Rightarrow>
                              if orEmpty (defaultIds config) = []
                              then Error ''No notify IDs configured''
                              else (case promiseAll
                                      (map (\<lambda>call. sendPromise (notify e (fst call) (snd call)))
                                         (invocations e config (orEmpty (defaultIds config))
                                            (case defaultIdsType config of None \<Rightarrow> Id | Some t \<Rightarrow> t)
                                            (selected ex (sentFindingsCache s) (parseDate e) (now e)
                                               (fetchedNodes e)) s)) of
                                      Inl thrown \<Rightarrow> Error (''Failed to check findings: '' @ thrown)
                                    | Inr results \<Rightarrow> Ok ())))))"
proof (cases rule: run_paths [where e=e and s=s])
  case (ExcludedFails m)
  then show ?thesis by (simp add: run_ExcludedFails)
next
  case (FetchThrows ex m)
  then show ?thesis by (simp add: run_FetchThrows)
next
  case (FetchErrors ex resp m ms)
  then show ?thesis by (simp add: run_FetchErrors)
next
  case (NoNodes ex resp)
  then show ?thesis by (simp add: run_NoNodes fetchedNodes_simps selected_Nil no_errors_case)
next
  case (NothingNew ex resp ns)
  then show ?thesis by (simp add: run_NothingNew fetchedNodes_simps no_errors_case)
next
  case (ConfigFails ex resp ns m)
  then show ?thesis by (simp add: run_ConfigFails fetchedNodes_simps no_errors_case)
next
  case (NoIds ex resp ns config)
  then show ?thesis by (simp add: run_NoIds fetchedNodes_simps no_errors_case)
next
  case (FanOut ex resp ns config)
  then show ?thesis
    by (simp add: run_FanOut fetchedNodes_simps no_errors_case fanOut_settled invocations_saved
          split: sum.split)
qed

text \<open>
  The trace of a run: effects that start no process, then, when findings were selected,
  the save of the extended sent-log and whatever follows it.
\<close>

lemma run_trace:
  assumes ex: "excludedRead e = Inr ex"
  shows "\<exists>P R. trace (snd (checkAndSendFindings e s)) = trace s @ P @ R
     \<and> (\<forall>x \<in> set P. \<not> isSpawn x)
     \<and> (R = [] \<or> (\<exists>R'. R = SaveSent (cleanedSentFindings (now e) (sentFindingsCache s)
            @ newSentFindings (selected ex (sentFindingsCache s) (parseDate e) (now e) (fetchedNodes e))) # R'))"
proof -
  obtain P where P: "trace (pruneSentFindings (now e) s) = trace s @ P" "\<forall>x \<in> set P. \<not> isSpawn x"
    using pruneSentFindings_trace by blast
  show ?thesis
  proof (cases rule: run_paths [where e=e and s=s])
    case (ExcludedFails m)
    with ex show ?thesis by simp
  next
    case (FetchThrows ex' m)
    then have "trace (snd (checkAndSendFindings e s)) = trace s @ P @ []"
      by (simp add: run_FetchThrows P)
    with P(2) show ?thesis by blast
  next
    case (FetchErrors ex' resp m ms)
    then have "trace (snd (checkAndSendFindings e s)) = trace s @ (P @ [LogGraphQLErrors (m # ms)]) @ []"
      by (simp add: run_FetchErrors P)
    moreover have "\<forall>x \<in> set (P @ [LogGraphQLErrors (m # ms)]). \<not> isSpawn x"
      using P(2) by simp
    ultimately show ?thesis by blast
  next
    case (NoNodes ex' resp)
    then have "trace (snd (checkAndSendFindings e s)) = trace s @ P @ []"
      by (simp add: run_NoNodes P)
    with P(2) show ?thesis by blast
  next
    case (NothingNew ex' resp ns)
    then have "trace (snd (checkAndSendFindings e s)) = trace s @ P @ []"
      by (simp add: run_NothingNew P)
    with P(2) show ?thesis by blast
  next
    case (ConfigFails ex' resp ns m)
    with ex have "trace (snd (checkAndSendFindings e s)) = trace s @ P
        @ SaveSent (cleanedSentFindings (now e) (sentFindingsCache s)
            @ newSentFindings (selected ex (sentFindingsCache s) (parseDate e) (now e) (fetchedNodes e))) # []"
      by (simp add: run_ConfigFails P saveSentFindings_def fetchedNodes_simps)
    with P(2) show ?thesis by blast
  next
    case (NoIds ex' resp ns config)
    with ex have "trace (snd (checkAndSendFindings e s)) = trace s @ P
        @ SaveSent (cleanedSentFindings (now e) (sentFindingsCache s)
            @ newSentFindings (selected ex (sentFindingsCache s) (parseDate e) (now e) (fetchedNodes e))) # []"
      by (simp add: run_NoIds P saveSentFindings_def fetchedNodes_simps)
    with P(2) show ?thesis by blast
  next
    case (FanOut ex' resp ns config)
    let ?U = "cleanedSentFindings (now e) (sentFindingsCache s)
            @ newSentFindings (selected ex (sentFindingsCache s) (parseDate e) (now e) ns)"
    let ?s2 = "snd (saveSentFindings ?U (pruneSentFindings (now e) s))"
    let ?f = "fanOut e config (orEmpty (defaultIds config))
              (case defaultIdsType config of None \<Rightarrow> Id | Some t \<Rightarrow> t)
              (selected ex (sentFindingsCache s) (parseDate e) (now e) ns) ?s2"
    from FanOut ex have fn: "fetchedNodes e = ns" and ex': "ex' = ex"
      by (simp_all add: fetchedNodes_simps)
    obtain F where F: "trace (snd ?f) = trace ?s2 @ F"
      using fanOut_trace [of e config _ _ _ ?s2] by blast
    have s2: "trace ?s2 = trace s @ P @ [SaveSent ?U]"
      by (simp add: saveSentFindings_def P)
    have run: "checkAndSendFindings e s =
        (case fst ?f of
           Inl thrown \<Rightarrow> (Error (''Failed to check findings: '' @ thrown), snd ?f)
         | Inr results \<Rightarrow>
             (Ok (), (snd ?f)\<lparr>trace := trace (snd ?f)
                @ [Emit (length (newSentFindings (selected ex (sentFindingsCache s) (parseDate e) (now e) ns)))
                     (length ?U)]\<rparr>))"
      using FanOut unfolding ex' by (rule run_FanOut)
    have "\<exists>R'. trace (snd (checkAndSendFindings e s)) = trace s @ P @ SaveSent ?U # R'"
      unfolding run by (cases "fst ?f") (simp_all add: F s2)
    with P(2) show ?thesis unfolding fn by blast
  qed
qed

lemma first_spawn_after:
  "P @ y # R = pre @ Spawn args msg # post \<Longrightarrow> \<forall>x \<in> set P. \<not> isSpawn x \<Longrightarrow> \<not> isSpawn y \<Longrightarrow>
   y \<in> set pre"
proof (induction P arbitrary: pre)
  case Nil
  then show ?case by (cases pre) auto
next
  case (Cons x P)
  then show ?case by (cases pre) auto
qed

lemma saved_before_spawn:
  assumes ex: "excludedRead e = Inr ex"
    and t: "trace (snd (checkAndSendFindings e s)) = trace s @ pre @ Spawn args msg # post"
  shows "SaveSent (cleanedSentFindings (now e) (sentFindingsCache s)
            @ newSentFindings (selected ex (sentFindingsCache s) (parseDate e) (now e) (fetchedNodes e)))
          \<in> set pre"
proof -
  let ?U = "cleanedSentFindings (now e) (sentFindingsCache s)
            @ newSentFindings (selected ex (sentFindingsCache s) (parseDate e) (now e) (fetchedNodes e))"
  from run_trace [OF ex, of s] obtain P R where
    tr: "trace (snd (checkAndSendFindings e s)) = trace s @ P @ R"
    and P: "\<forall>x \<in> set P. \<not> isSpawn x"
    and R: "R = [] \<or> (\<exists>R'. R = SaveSent ?U # R')" by blast
  from tr t have eq: "P @ R = pre @ Spawn args msg # post" by simp
  from R show ?thesis
  proof
    assume "R = []"
    with eq have "Spawn args msg \<in> set P" by simp
    with P show ?thesis by force
  next
    assume "\<exists>R'. R = SaveSent ?U # R'"
    then obtain R' where "R = SaveSent ?U # R'" by blast
    with eq have "P @ SaveSent ?U # R' = pre @ Spawn args msg # post" by simp
    from first_spawn_after [OF this P] show ?thesis by simp
  qed
qed

subsection \<open>Equality up to case\<close>

lemma charCode_inj: "charCode a = charCode b \<longleftrightarrow> a = b"
  by (simp add: charCode_def)

lemma charCode_lowerChar:
  "charCode (lowerChar c) = (if 65 \<le> charCode c \<and> charCode c \<le> 90 then charCode c + 32 else charCode c)"
  by (simp add: lowerChar_def charCode_def)

lemma sameLetter_iff: "sameLetter a b \<longleftrightarrow> lowerChar a = lowerChar b"
proof -
  have "lowerChar a = lowerChar b \<longleftrightarrow> charCode (lowerChar a) = charCode (lowerChar b)"
    by (simp add: charCode_inj)
  also have "\<dots> \<longleftrightarrow> sameLetter a b"
    unfolding charCode_lowerChar sameLetter_def charCode_inj [symmetric, of a b] by auto
  finally show ?thesis by simp
qed

lemma equalUpToCase_iff: "equalUpToCase a b \<longleftrightarrow> asciiLower a = asciiLower b"
  unfolding equalUpToCase_def asciiLower_def
  by (induction a arbitrary: b) (auto simp: sameLetter_iff list_all2_Cons1)

subsection \<open>C1: the exclusion list and the reporter name\<close>

text \<open>
  What the filter does with the exclusion list: a finding that is younger than one
  hour and not in the sent-log is selected unless its id or its reporter is, character
  for character, an entry of the list.
\<close>

lemma selected_unless_listed_exactly:
  assumes "nd \<in> set ns" "findingTimestamp parse n nd > n - 3600000"
    and "nodeId nd \<notin> set ex" "reporter nd \<notin> set ex"
    and "nodeId nd \<notin> findingId ` set l"
  shows "toFinding parse n nd \<in> set (selected ex l parse n ns)"
  using assms by (auto simp: set_selected toFinding_def)

text \<open>
  C1. Exclusion by reporter name is claimed to be case-insensitive, and exclusion by
  id case-sensitive. At the input of the scenario the code does otherwise for the
  reporter: the entry "Enhanced File Detector" and the reporter "enhanced file
  detector" are equal up to ASCII case, yet the finding is selected and written to
  the sent-log. Only the entry in the reporter's own spelling excludes it. The id is
  compared exactly: the entry "F1" does not exclude the finding f1, the entry "f1"
  does. The README of the plugin documents case-insensitive matching for reporter
  names, and the lookup of the per-reporter destination lowers both sides before it
  compares.
\<close>

theorem C1_reporter_exclusion_compares_exactly:
  "equalUpToCase ''Enhanced File Detector'' ''enhanced file detector''
   \<and> map getId (selected [''Enhanced File Detector''] [] exampleParse exampleNow
          [exampleNode ''f1'' ''enhanced file detector'' (Some ''2024-01-01T01:50:00.000Z'')]) = [''f1'']
   \<and> map getId (selected [''enhanced file detector''] [] exampleParse exampleNow
          [exampleNode ''f1'' ''enhanced file detector'' (Some ''2024-01-01T01:50:00.000Z'')]) = []
   \<and> map getId (selected [''F1''] [] exampleParse exampleNow
          [exampleNode ''f1'' ''enhanced file detector'' (Some ''2024-01-01T01:50:00.000Z'')]) = [''f1'']
   \<and> map getId (selected [''f1''] [] exampleParse exampleNow
          [exampleNode ''f1'' ''enhanced file detector'' (Some ''2024-01-01T01:50:00.000Z'')]) = []
   \<and> sentFindingsCache (snd (checkAndSendFindings
          (exampleEnv [''Enhanced File Detector''] exampleNow
             [exampleNode ''f1'' ''enhanced file detector'' (Some ''2024-01-01T01:50:00.000Z'')]
             exampleConfig (Close (Some 0) []))
          initialState))
        = [\<lparr>findingId = ''f1'', timestamp = 1704073800000\<rparr>]"
  by code_simp

subsection \<open>C2: no destination configured\<close>

lemma run_no_ids_iff:
  "fst (checkAndSendFindings e s) = Error ''No notify IDs configured'' \<longleftrightarrow>
     (\<exists>ex config. excludedRead e = Inr ex
        \<and> selected ex (sentFindingsCache s) (parseDate e) (now e) (fetchedNodes e) \<noteq> []
        \<and> notifyIdsRead e = Inr config \<and> orEmpty (defaultIds config) = [])"
proof (cases "excludedRead e")
  case (Inl m)
  then show ?thesis by (simp add: run_result)
next
  case ex: (Inr ex)
  show ?thesis
  proof (cases "selected ex (sentFindingsCache s) (parseDate e) (now e) (fetchedNodes e) = []")
    case True
    with ex show ?thesis
      by (simp add: run_result split: sum.split option.split list.split)
  next
    case False
    then obtain resp ns where resp: "graphqlExecute e = Inr resp" "\<not> hasErrors resp"
      using selected_nonempty_fetched by blast
    show ?thesis
    proof (cases "notifyIdsRead e")
      case (Inl m)
      with ex False resp show ?thesis by (simp add: run_result no_errors_case)
    next
      case (Inr config)
      with ex False resp show ?thesis by (simp add: run_result no_errors_case split: sum.split)
    qed
  qed
qed

lemma run_no_ids_spawns:
  assumes "fst (checkAndSendFindings e s) = Error ''No notify IDs configured''"
  shows "filter isSpawn (trace (snd (checkAndSendFindings e s))) = filter isSpawn (trace s)"
proof -
  from assms obtain ex config where ex: "excludedRead e = Inr ex"
    and new: "selected ex (sentFindingsCache s) (parseDate e) (now e) (fetchedNodes e) \<noteq> []"
    and c: "notifyIdsRead e = Inr config" "orEmpty (defaultIds config) = []"
    unfolding run_no_ids_iff by blast
  from new obtain resp ns where "graphqlExecute e = Inr resp" "\<not> hasErrors resp"
    "nodes resp = Some ns" "fetchedNodes e = ns"
    using selected_nonempty_fetched by blast
  with ex new c show ?thesis
    by (simp add: run_NoIds saveSentFindings_def pruneSentFindings_spawns)
qed

text \<open>
  C2 as stated fails: the test is on the default destination alone. Here the only
  group has the reporter R1, the configuration has a destination for R1 and no
  default destination, and the run returns the error.
\<close>

theorem C2_no_notify_ids_counterexample:
  "map fst (findingsByReporter (selected [] [] exampleParse exampleNow
       [exampleNode ''f1'' ''R1'' (Some ''2024-01-01T01:50:00.000Z'')])) = [''R1'']
   \<and> resolveNotifyIds asciiLower overrideOnlyConfig (orEmpty (defaultIds overrideOnlyConfig)) Id ''R1''
       = (''pager'', Id)
   \<and> fst (checkAndSendFindings
        (exampleEnv [] exampleNow [exampleNode ''f1'' ''R1'' (Some ''2024-01-01T01:50:00.000Z'')]
           overrideOnlyConfig (Close (Some 0) []))
        initialState) = Error ''No notify IDs configured''"
  by code_simp

text \<open>
  C2, amended. The run returns the error "No notify IDs configured" exactly when it
  gets as far as the test (the exclusion list is read, the query gives nodes of which
  at least one is selected, the notify configuration is read) and the default
  destination is absent or empty, whatever the per-reporter destinations are. The
  test comes before the fan-out: a run that returns this error starts no notifier
  process.
\<close>

theorem C2_no_notify_ids:
  "(fst (checkAndSendFindings e s) = Error ''No notify IDs configured'' \<longleftrightarrow>
     (\<exists>ex config. excludedRead e = Inr ex
        \<and> selected ex (sentFindingsCache s) (parseDate e) (now e) (fetchedNodes e) \<noteq> []
        \<and> notifyIdsRead e = Inr config \<and> orEmpty (defaultIds config) = []))
   \<and> (fst (checkAndSendFindings e s) = Error ''No notify IDs configured'' \<longrightarrow>
        filter isSpawn (trace (snd (checkAndSendFindings e s))) = filter isSpawn (trace s))"
  using run_no_ids_iff [of e s] run_no_ids_spawns [of e s] by (intro conjI impI)

theorem C2_no_notify_ids_witness:
  "fst (checkAndSendFindings
        (exampleEnv [] exampleNow [exampleNode ''f1'' ''R1'' (Some ''2024-01-01T01:50:00.000Z'')]
           overrideOnlyConfig (Close (Some 0) []))
        initialState) = Error ''No notify IDs configured''
   \<and> filter isSpawn (trace (snd (checkAndSendFindings
        (exampleEnv [] exampleNow [exampleNode ''f1'' ''R1'' (Some ''2024-01-01T01:50:00.000Z'')]
           overrideOnlyConfig (Close (Some 0) []))
        initialState))) = []"
proof -
  let ?e = "exampleEnv [] exampleNow [exampleNode ''f1'' ''R1'' (Some ''2024-01-01T01:50:00.000Z'')]
           overrideOnlyConfig (Close (Some 0) [])"
  have new: "selected [] (sentFindingsCache initialState) (parseDate ?e) (now ?e) (fetchedNodes ?e) \<noteq> []"
    by code_simp
  have "excludedRead ?e = Inr [] \<and> notifyIdsRead ?e = Inr overrideOnlyConfig
      \<and> orEmpty (defaultIds overrideOnlyConfig) = []"
    by (simp add: exampleEnv_def overrideOnlyConfig_def orEmpty_def)
  with new have rhs: "\<exists>ex config. excludedRead ?e = Inr ex
        \<and> selected ex (sentFindingsCache initialState) (parseDate ?e) (now ?e) (fetchedNodes ?e) \<noteq> []
        \<and> notifyIdsRead ?e = Inr config \<and> orEmpty (defaultIds config) = []"
    by blast
  note inst = C2_no_notify_ids [of ?e initialState]
  from inst [THEN conjunct1] rhs
  have r: "fst (checkAndSendFindings ?e initialState) = Error ''No notify IDs configured''"
    by (rule iffD2)
  from inst [THEN conjunct2] r
  have "filter isSpawn (trace (snd (checkAndSendFindings ?e initialState))) = filter isSpawn (trace initialState)"
    by (rule mp)
  then have "filter isSpawn (trace (snd (checkAndSendFindings ?e initialState))) = []"
    by (simp add: initialState_def)
  with r show ?thesis by (rule conjI)
qed

subsection \<open>C3: the outcomes of the notifier processes\<close>

lemma fetchedNodes_notify: "fetchedNodes (e\<lparr>notify := f\<rparr>) = fetchedNodes e"
  by (simp add: fetchedNodes_def)

lemma run_cache_notify:
  "sentFindingsCache (snd (checkAndSendFindings (e\<lparr>notify := f\<rparr>) s))
     = sentFindingsCache (snd (checkAndSendFindings e s))"
proof (cases "excludedRead e")
  case (Inl m)
  then show ?thesis by (simp add: run_ExcludedFails)
next
  case (Inr ex)
  then have "excludedRead (e\<lparr>notify := f\<rparr>) = Inr ex" by simp
  from run_cache [OF this] run_cache [OF Inr] show ?thesis
    by (simp add: fetchedNodes_notify)
qed

lemma firstThrown_Some:
  "firstThrown outs = Some m \<Longrightarrow> promiseAll (map sendPromise outs) = Inl m"
  by (induction outs rule: firstThrown.induct) (simp_all add: sendPromise_def)

lemma firstThrown_None:
  "firstThrown outs = None \<Longrightarrow> \<exists>vs. promiseAll (map sendPromise outs) = Inr vs"
  by (induction outs rule: firstThrown.induct) (auto simp: sendPromise_def)

lemma firstThrown_None_iff: "firstThrown outs = None \<longleftrightarrow> (\<forall>m. SpawnThrows m \<notin> set outs)"
  by (induction outs rule: firstThrown.induct) auto

lemma run_result_fanOut:
  assumes "excludedRead e = Inr ex"
    and "selected ex (sentFindingsCache s) (parseDate e) (now e) (fetchedNodes e) \<noteq> []"
    and "notifyIdsRead e = Inr config" and "orEmpty (defaultIds config) \<noteq> []"
  shows "fst (checkAndSendFindings e s) =
     (case firstThrown (map (\<lambda>call. notify e (fst call) (snd call))
             (invocations e config (orEmpty (defaultIds config))
                (case defaultIdsType config of None \<Rightarrow> Id | Some t \<Rightarrow> t)
                (selected ex (sentFindingsCache s) (parseDate e) (now e) (fetchedNodes e)) s)) of
        None \<Rightarrow> Ok ()
      | Some m \<Rightarrow> Error (''Failed to check findings: '' @ m))"
proof -
  let ?calls = "invocations e config (orEmpty (defaultIds config))
                (case defaultIdsType config of None \<Rightarrow> Id | Some t \<Rightarrow> t)
                (selected ex (sentFindingsCache s) (parseDate e) (now e) (fetchedNodes e)) s"
  let ?outs = "map (\<lambda>call. notify e (fst call) (snd call)) ?calls"
  from assms(2) obtain resp where "graphqlExecute e = Inr resp" "\<not> hasErrors resp"
    using selected_nonempty_fetched by blast
  with assms have r: "fst (checkAndSendFindings e s) =
      (case promiseAll (map sendPromise ?outs) of
         Inl thrown \<Rightarrow> Error (''Failed to check findings: '' @ thrown)
       | Inr results \<Rightarrow> Ok ())"
    by (simp add: run_result no_errors_case o_def)
  show ?thesis
  proof (cases "firstThrown ?outs")
    case None
    from firstThrown_None [OF this] obtain vs where "promiseAll (map sendPromise ?outs) = Inr vs"
      by blast
    with None r show ?thesis by simp
  next
    case (Some m)
    from firstThrown_Some [OF this] Some r show ?thesis by simp
  qed
qed

text \<open>
  C3 as stated fails in its last part: the promise of a group whose process could not
  be started (the \<open>error\<close> event) resolves to an error, but the value of \<open>Promise.all\<close>
  is not looked at, and the run returns success.
\<close>

theorem C3_spawn_error_counterexample:
  "sendPromise (SpawnError ''spawn EAGAIN'') = Inr (Error ''Failed to execute notify: spawn EAGAIN'')
   \<and> fst (fanOut
        (exampleEnv [] exampleNow [exampleNode ''f1'' ''R1'' (Some ''2024-01-01T01:50:00.000Z'')]
           exampleConfig (SpawnError ''spawn EAGAIN''))
        exampleConfig ''slack'' Id
        (selected [] [] exampleParse exampleNow
           [exampleNode ''f1'' ''R1'' (Some ''2024-01-01T01:50:00.000Z'')])
        initialState)
      = Inr [Error ''Failed to execute notify: spawn EAGAIN'']
   \<and> fst (checkAndSendFindings
        (exampleEnv [] exampleNow [exampleNode ''f1'' ''R1'' (Some ''2024-01-01T01:50:00.000Z'')]
           exampleConfig (SpawnError ''spawn EAGAIN''))
        initialState) = Ok ()
   \<and> length (filter isSpawn (trace (snd (checkAndSendFindings
        (exampleEnv [] exampleNow [exampleNode ''f1'' ''R1'' (Some ''2024-01-01T01:50:00.000Z'')]
           exampleConfig (SpawnError ''spawn EAGAIN''))
        initialState)))) = 1"
  by code_simp

text \<open>
  C3, amended. A run that reaches the fan-out (a finding is selected, the notify
  configuration is read, the default destination is not empty) returns success
  exactly when no call of \<open>spawn\<close> of the run throws; when one does, the run returns the
  error "Failed to check findings: " followed by the message of the first call that
  threw. So no exit code, no timeout and no \<open>error\<close> event of a notifier process makes
  the result an error: the promise of a group resolves to success on any exit code and
  on the timeout, and to an error on the \<open>error\<close> event, and the run does not look at
  these values; the promise is rejected only when the call of \<open>spawn\<close> throws. The
  sent-log the run leaves is the same for every behaviour of the notifier.
\<close>

theorem C3_only_a_throwing_spawn_fails_run:
  "(excludedRead e = Inr ex
      \<and> selected ex (sentFindingsCache s) (parseDate e) (now e) (fetchedNodes e) \<noteq> []
      \<and> notifyIdsRead e = Inr config \<and> orEmpty (defaultIds config) \<noteq> [] \<longrightarrow>
        fst (checkAndSendFindings e s) =
          (case firstThrown (map (\<lambda>call. notify e (fst call) (snd call))
                  (invocations e config (orEmpty (defaultIds config))
                     (case defaultIdsType config of None \<Rightarrow> Id | Some t \<Rightarrow> t)
                     (selected ex (sentFindingsCache s) (parseDate e) (now e) (fetchedNodes e)) s)) of
             None \<Rightarrow> Ok ()
           | Some m \<Rightarrow> Error (''Failed to check findings: '' @ m))
        \<and> (fst (checkAndSendFindings e s) = Ok () \<longleftrightarrow>
             (\<forall>call \<in> set (invocations e config (orEmpty (defaultIds config))
                     (case defaultIdsType config of None \<Rightarrow> Id | Some t \<Rightarrow> t)
                     (selected ex (sentFindingsCache s) (parseDate e) (now e) (fetchedNodes e)) s).
                \<forall>m. notify e (fst call) (snd call) \<noteq> SpawnThrows m)))
   \<and> (firstThrown outs = None \<longleftrightarrow> (\<forall>m. SpawnThrows m \<notin> set outs))
   \<and> sendPromise (Close code errorOutput) = Inr (Ok ())
   \<and> sendPromise Timeout = Inr (Ok ())
   \<and> sendPromise (SpawnError m) = Inr (Error (''Failed to execute notify: '' @ m))
   \<and> sendPromise (SpawnThrows m) = Inl m
   \<and> sentFindingsCache (snd (checkAndSendFindings (e\<lparr>notify := f\<rparr>) s))
       = sentFindingsCache (snd (checkAndSendFindings e s))"
proof -
  let ?calls = "invocations e config (orEmpty (defaultIds config))
                (case defaultIdsType config of None \<Rightarrow> Id | Some t \<Rightarrow> t)
                (selected ex (sentFindingsCache s) (parseDate e) (now e) (fetchedNodes e)) s"
  let ?outs = "map (\<lambda>call. notify e (fst call) (snd call)) ?calls"
  have a: "fst (checkAndSendFindings e s) =
      (case firstThrown ?outs of None \<Rightarrow> Ok () | Some m \<Rightarrow> Error (''Failed to check findings: '' @ m))"
    if "excludedRead e = Inr ex"
      "selected ex (sentFindingsCache s) (parseDate e) (now e) (fetchedNodes e) \<noteq> []"
      "notifyIdsRead e = Inr config" "orEmpty (defaultIds config) \<noteq> []"
    using that by (rule run_result_fanOut)
  have a': "fst (checkAndSendFindings e s) = Ok () \<longleftrightarrow>
      (\<forall>call \<in> set ?calls. \<forall>m. notify e (fst call) (snd call) \<noteq> SpawnThrows m)"
    if "excludedRead e = Inr ex"
      "selected ex (sentFindingsCache s) (parseDate e) (now e) (fetchedNodes e) \<noteq> []"
      "notifyIdsRead e = Inr config" "orEmpty (defaultIds config) \<noteq> []"
  proof -
    have "fst (checkAndSendFindings e s) = Ok () \<longleftrightarrow> firstThrown ?outs = None"
      unfolding a [OF that] by (simp split: option.split)
    also have "\<dots> \<longleftrightarrow> (\<forall>m. SpawnThrows m \<notin> set ?outs)"
      by (rule firstThrown_None_iff)
    also have "\<dots> \<longleftrightarrow> (\<forall>call \<in> set ?calls. \<forall>m. notify e (fst call) (snd call) \<noteq> SpawnThrows m)"
      by (simp add: image_iff, metis)
    finally show ?thesis .
  qed
  have b: "sendPromise (Close code errorOutput) = Inr (Ok ())" "sendPromise Timeout = Inr (Ok ())"
    "sendPromise (SpawnError m) = Inr (Error (''Failed to execute notify: '' @ m))"
    "sendPromise (SpawnThrows m) = Inl m"
    by (simp_all add: sendPromise_def)
  show ?thesis
    apply (intro conjI impI)
    subgoal using a by blast
    subgoal using a' by blast
    subgoal by (rule firstThrown_None_iff)
    subgoal by (rule b)
    subgoal by (rule b)
    subgoal by (rule b)
    subgoal by (rule b)
    subgoal by (rule run_cache_notify)
    done
qed

theorem C3_only_a_throwing_spawn_fails_run_witness:
  "fst (checkAndSendFindings
        (exampleEnv [] exampleNow [exampleNode ''f1'' ''R1'' (Some ''2024-01-01T01:50:00.000Z'')]
           exampleConfig (Close (Some 1) ''no such provider''))
        initialState) = Ok ()
   \<and> fst (checkAndSendFindings
        (exampleEnv [] exampleNow [exampleNode ''f1'' ''R1'' (Some ''2024-01-01T01:50:00.000Z'')]
           exampleConfig (SpawnThrows ''The argument args[3] must be a string without null bytes''))
        initialState)
      = Error ''Failed to check findings: The argument args[3] must be a string without null bytes''"
proof -
  let ?ns = "[exampleNode ''f1'' ''R1'' (Some ''2024-01-01T01:50:00.000Z'')]"
  let ?e1 = "exampleEnv [] exampleNow ?ns exampleConfig (Close (Some 1) ''no such provider'')"
  let ?e2 = "exampleEnv [] exampleNow ?ns exampleConfig
               (SpawnThrows ''The argument args[3] must be a string without null bytes'')"
  have h: "excludedRead (exampleEnv [] exampleNow ?ns exampleConfig out) = Inr []
      \<and> selected [] (sentFindingsCache initialState)
           (parseDate (exampleEnv [] exampleNow ?ns exampleConfig out))
           (now (exampleEnv [] exampleNow ?ns exampleConfig out))
           (fetchedNodes (exampleEnv [] exampleNow ?ns exampleConfig out)) \<noteq> []
      \<and> notifyIdsRead (exampleEnv [] exampleNow ?ns exampleConfig out) = Inr exampleConfig
      \<and> orEmpty (defaultIds exampleConfig) \<noteq> []" for out
    by (simp add: exampleEnv_def exampleConfig_def orEmpty_def fetchedNodes_def hasErrors_def
          initialState_def selected_def newFindings_def recentFindings_def allFindings_def
          toFinding_def findingTimestamp_def exampleNode_def exampleParse_def exampleNow_def
          oneHourAgo_def finalSentIds_def cleanedSentFindings_def)
  have v1: "(case firstThrown (map (\<lambda>call. notify ?e1 (fst call) (snd call))
                  (invocations ?e1 exampleConfig (orEmpty (defaultIds exampleConfig))
                     (case defaultIdsType exampleConfig of None \<Rightarrow> Id | Some t \<Rightarrow> t)
                     (selected [] (sentFindingsCache initialState) (parseDate ?e1) (now ?e1)
                        (fetchedNodes ?e1)) initialState)) of
             None \<Rightarrow> Ok ()
           | Some m \<Rightarrow> Error (''Failed to check findings: '' @ m)) = Ok ()"
    by code_simp
  have v2: "(case firstThrown (map (\<lambda>call. notify ?e2 (fst call) (snd call))
                  (invocations ?e2 exampleConfig (orEmpty (defaultIds exampleConfig))
                     (case defaultIdsType exampleConfig of None \<Rightarrow> Id | Some t \<Rightarrow> t)
                     (selected [] (sentFindingsCache initialState) (parseDate ?e2) (now ?e2)
                        (fetchedNodes ?e2)) initialState)) of
             None \<Rightarrow> Ok ()
           | Some m \<Rightarrow> Error (''Failed to check findings: '' @ m))
       = Error ''Failed to check findings: The argument args[3] must be a string without null bytes''"
    by code_simp
  from C3_only_a_throwing_spawn_fails_run
         [of ?e1 "[]" initialState exampleConfig, THEN conjunct1, THEN mp, OF h, THEN conjunct1]
  have r1: "fst (checkAndSendFindings ?e1 initialState) = Ok ()"
    unfolding v1 .
  from C3_only_a_throwing_spawn_fails_run
         [of ?e2 "[]" initialState exampleConfig, THEN conjunct1, THEN mp, OF h, THEN conjunct1]
  have r2: "fst (checkAndSendFindings ?e2 initialState)
      = Error ''Failed to check findings: The argument args[3] must be a string without null bytes''"
    unfolding v2 .
  from r1 r2 show ?thesis by (rule conjI)
qed

subsection \<open>C4: a failing findings query\<close>

lemma failed_query_state:
  assumes r: "checkAndSendFindings e s = (Error msg, (pruneSentFindings (now e) s)\<lparr>trace := t\<rparr>)"
    and t: "filter isSpawn t = filter isSpawn (trace s)"
  shows "(\<exists>msg. fst (checkAndSendFindings e s) = Error msg)
     \<and> sentFindingsCache (snd (checkAndSendFindings e s))
         = cleanedSentFindings (now e) (sentFindingsCache s)
     \<and> ((\<forall>x \<in> set (sentFindingsCache s). timestamp x > now e - 3600000) \<longrightarrow>
          sentFindingsCache (snd (checkAndSendFindings e s)) = sentFindingsCache s)
     \<and> checkDelayCache (snd (checkAndSendFindings e s)) = checkDelayCache s
     \<and> useCustomProviderConfigCache (snd (checkAndSendFindings e s)) = useCustomProviderConfigCache s
     \<and> checkInterval (snd (checkAndSendFindings e s)) = checkInterval s
     \<and> filter isSpawn (trace (snd (checkAndSendFindings e s))) = filter isSpawn (trace s)"
proof -
  have 1: "fst (checkAndSendFindings e s) = Error msg" by (simp add: r)
  have 2: "sentFindingsCache (snd (checkAndSendFindings e s))
         = cleanedSentFindings (now e) (sentFindingsCache s)"
    by (simp add: r sentFindingsCache_pruneSentFindings)
  have 3: "sentFindingsCache (snd (checkAndSendFindings e s)) = sentFindingsCache s"
    if "\<forall>x \<in> set (sentFindingsCache s). timestamp x > now e - 3600000"
    using that by (simp add: r pruneSentFindings_unchanged)
  have 4: "checkDelayCache (snd (checkAndSendFindings e s)) = checkDelayCache s"
    "useCustomProviderConfigCache (snd (checkAndSendFindings e s)) = useCustomProviderConfigCache s"
    "checkInterval (snd (checkAndSendFindings e s)) = checkInterval s"
    by (simp_all add: r pruneSentFindings_frame)
  have 5: "filter isSpawn (trace (snd (checkAndSendFindings e s))) = filter isSpawn (trace s)"
    by (simp add: r t)
  from 1 2 3 4 5 show ?thesis by blast
qed

text \<open>
  C4 as stated fails: the sent-log is pruned, and the pruned log saved, before the
  query is made. Here the log holds an entry two hours old, the query throws, and the
  log the run leaves has lost that entry.
\<close>

theorem C4_failed_query_counterexample:
  "fst (checkAndSendFindings
          ((exampleEnv [] exampleNow [] exampleConfig Timeout)\<lparr>graphqlExecute := Inl ''fetch failed''\<rparr>)
          (initialState\<lparr>sentFindingsCache := exampleLog\<rparr>))
     = Error ''Failed to check findings: fetch failed''
   \<and> sentFindingsCache (initialState\<lparr>sentFindingsCache := exampleLog\<rparr>)
     = [\<lparr>findingId = ''f0'', timestamp = 1704067200000\<rparr>,
        \<lparr>findingId = ''f9'', timestamp = 1704073800000\<rparr>]
   \<and> sentFindingsCache (snd (checkAndSendFindings
          ((exampleEnv [] exampleNow [] exampleConfig Timeout)\<lparr>graphqlExecute := Inl ''fetch failed''\<rparr>)
          (initialState\<lparr>sentFindingsCache := exampleLog\<rparr>)))
     = [\<lparr>findingId = ''f9'', timestamp = 1704073800000\<rparr>]"
  by code_simp

text \<open>
  C4, amended. When the findings query throws or answers with errors, the run returns
  an error; the sent-log it leaves is the pruned log (the log it started with when no
  entry is at or before now - 3600000), no entry is added, the other module variables
  are unchanged and no notifier process is started.
\<close>

theorem C4_failed_query_prunes_only:
  "excludedRead e = Inr ex
   \<and> (graphqlExecute e = Inl m \<or> (\<exists>resp. graphqlExecute e = Inr resp \<and> hasErrors resp)) \<longrightarrow>
     (\<exists>msg. fst (checkAndSendFindings e s) = Error msg)
     \<and> sentFindingsCache (snd (checkAndSendFindings e s))
         = cleanedSentFindings (now e) (sentFindingsCache s)
     \<and> ((\<forall>x \<in> set (sentFindingsCache s). timestamp x > now e - 3600000) \<longrightarrow>
          sentFindingsCache (snd (checkAndSendFindings e s)) = sentFindingsCache s)
     \<and> checkDelayCache (snd (checkAndSendFindings e s)) = checkDelayCache s
     \<and> useCustomProviderConfigCache (snd (checkAndSendFindings e s)) = useCustomProviderConfigCache s
     \<and> checkInterval (snd (checkAndSendFindings e s)) = checkInterval s
     \<and> filter isSpawn (trace (snd (checkAndSendFindings e s))) = filter isSpawn (trace s)"
proof (intro impI, elim conjE)
  assume ex: "excludedRead e = Inr ex"
    and fail: "graphqlExecute e = Inl m \<or> (\<exists>resp. graphqlExecute e = Inr resp \<and> hasErrors resp)"
  let ?p = "pruneSentFindings (now e) s"
  from fail show "(\<exists>msg. fst (checkAndSendFindings e s) = Error msg)
     \<and> sentFindingsCache (snd (checkAndSendFindings e s))
         = cleanedSentFindings (now e) (sentFindingsCache s)
     \<and> ((\<forall>x \<in> set (sentFindingsCache s). timestamp x > now e - 3600000) \<longrightarrow>
          sentFindingsCache (snd (checkAndSendFindings e s)) = sentFindingsCache s)
     \<and> checkDelayCache (snd (checkAndSendFindings e s)) = checkDelayCache s
     \<and> useCustomProviderConfigCache (snd (checkAndSendFindings e s)) = useCustomProviderConfigCache s
     \<and> checkInterval (snd (checkAndSendFindings e s)) = checkInterval s
     \<and> filter isSpawn (trace (snd (checkAndSendFindings e s))) = filter isSpawn (trace s)"
  proof
    assume "graphqlExecute e = Inl m"
    with ex have "checkAndSendFindings e s
        = (Error (''Failed to check findings: '' @ m), ?p\<lparr>trace := trace ?p\<rparr>)"
      by (simp add: run_FetchThrows)
    then show ?thesis
      by (rule failed_query_state) (rule pruneSentFindings_spawns)
  next
    assume "\<exists>resp. graphqlExecute e = Inr resp \<and> hasErrors resp"
    then obtain resp where resp: "graphqlExecute e = Inr resp" and "hasErrors resp" by blast
    then obtain m' ms where "errors resp = Some (m' # ms)"
      by (auto simp: hasErrors_def split: option.splits list.splits)
    with ex resp have "checkAndSendFindings e s =
        (Error (''GraphQL query failed: '' @ join '', '' (m' # ms)),
         ?p\<lparr>trace := trace ?p @ [LogGraphQLErrors (m' # ms)]\<rparr>)"
      by (simp add: run_FetchErrors)
    then show ?thesis
      by (rule failed_query_state) (simp add: pruneSentFindings_spawns)
  qed
qed

theorem C4_failed_query_prunes_only_witness:
  "(\<exists>msg. fst (checkAndSendFindings
          ((exampleEnv [] exampleNow [] exampleConfig Timeout)\<lparr>graphqlExecute := Inl ''fetch failed''\<rparr>)
          (initialState\<lparr>sentFindingsCache := exampleLog\<rparr>)) = Error msg)
   \<and> sentFindingsCache (snd (checkAndSendFindings
          ((exampleEnv [] exampleNow [] exampleConfig Timeout)\<lparr>graphqlExecute := Inl ''fetch failed''\<rparr>)
          (initialState\<lparr>sentFindingsCache := exampleLog\<rparr>)))
     = [\<lparr>findingId = ''f9'', timestamp = 1704073800000\<rparr>]"
proof -
  let ?e = "(exampleEnv [] exampleNow [] exampleConfig Timeout)\<lparr>graphqlExecute := Inl ''fetch failed''\<rparr>"
  let ?s = "initialState\<lparr>sentFindingsCache := exampleLog\<rparr>"
  have h: "excludedRead ?e = Inr [] \<and> (graphqlExecute ?e = Inl ''fetch failed''
       \<or> (\<exists>resp. graphqlExecute ?e = Inr resp \<and> hasErrors resp))"
    by (simp add: exampleEnv_def)
  have c: "cleanedSentFindings (now ?e) (sentFindingsCache ?s) = [\<lparr>findingId = ''f9'', timestamp = 1704073800000\<rparr>]"
    by (simp add: cleanedSentFindings_def exampleLog_def exampleNow_def oneHourAgo_def exampleEnv_def)
  note inst = C4_failed_query_prunes_only [of ?e "[]" "''fetch failed''" ?s, THEN mp, OF h]
  from inst [THEN conjunct1] inst [THEN conjunct2, THEN conjunct1]
  have "(\<exists>msg. fst (checkAndSendFindings ?e ?s) = Error msg)
     \<and> sentFindingsCache (snd (checkAndSendFindings ?e ?s))
         = cleanedSentFindings (now ?e) (sentFindingsCache ?s)"
    by (rule conjI)
  with c show ?thesis by simp
qed

subsection \<open>C5: the sent-log is saved before the notifier is started\<close>

lemma selected_entry_saved:
  assumes ex: "excludedRead e = Inr ex"
    and sel: "toFinding (parseDate e) (now e) nd
                \<in> set (selected ex (sentFindingsCache s) (parseDate e) (now e) (fetchedNodes e))"
  shows "\<lparr>findingId = nodeId nd, timestamp = findingTimestamp (parseDate e) (now e) nd\<rparr>
           \<in> set (newSentFindings (selected ex (sentFindingsCache s) (parseDate e) (now e) (fetchedNodes e)))"
proof -
  have "\<lparr>findingId = getId (toFinding (parseDate e) (now e) nd),
         timestamp = getTimestamp (toFinding (parseDate e) (now e) nd)\<rparr>
        \<in> set (newSentFindings (selected ex (sentFindingsCache s) (parseDate e) (now e) (fetchedNodes e)))"
    unfolding newSentFindings_def set_map using sel by (rule imageI)
  then show ?thesis by (simp add: toFinding_def)
qed

lemma not_selected_again:
  assumes entry: "\<lparr>findingId = nodeId nd, timestamp = findingTimestamp parse n1 nd\<rparr> \<in> set l"
    and same: "nodeId nd2 = nodeId nd" "createdAt nd2 = createdAt nd"
    and cond: "parsedCreatedAt parse nd \<noteq> None \<or> n2 < n1 + 3600000"
  shows "toFinding parse n2 nd2 \<notin> set (selected ex2 l parse n2 ns2)"
proof
  assume sel: "toFinding parse n2 nd2 \<in> set (selected ex2 l parse n2 ns2)"
  from same(2) have ts: "findingTimestamp parse n nd2 = findingTimestamp parse n nd" for n
    by (simp add: findingTimestamp_def)
  from sel same(1) have recent: "findingTimestamp parse n2 nd > n2 - 3600000"
    and unsent: "nodeId nd \<notin> findingId ` {x \<in> set l. timestamp x > n2 - 3600000}"
    by (simp_all add: set_selected toFinding_def ts)
  from unsent entry have old: "findingTimestamp parse n1 nd \<le> n2 - 3600000"
    by (force simp: image_iff)
  show False
  proof (cases "parsedCreatedAt parse nd")
    case None
    with cond have "n2 < n1 + 3600000" by simp
    moreover from None old have "n1 \<le> n2 - 3600000" by (simp add: findingTimestamp_parsed)
    ultimately show False by simp
  next
    case (Some t)
    with recent old show False by (simp add: findingTimestamp_parsed)
  qed
qed

text \<open>
  C5 as stated fails in its consequence: a finding without a creation time takes the
  clock of the run as its timestamp, so its entry is pruned one hour later while the
  finding itself is again younger than one hour. Here the finding f1 has no
  \<open>createdAt\<close>; it is selected by a first run, and selected again by a run one hour
  later that starts from the sent-log the first run left.
\<close>

theorem C5_undated_finding_counterexample:
  "map getId (selected [] (sentFindingsCache initialState) exampleParse exampleNow
       [exampleNode ''f1'' ''R1'' None]) = [''f1'']
   \<and> sentFindingsCache (snd (checkAndSendFindings
        (exampleEnv [] exampleNow [exampleNode ''f1'' ''R1'' None] exampleConfig Timeout)
        initialState))
       = [\<lparr>findingId = ''f1'', timestamp = exampleNow\<rparr>]
   \<and> map getId (selected []
        (sentFindingsCache (snd (checkAndSendFindings
           (exampleEnv [] exampleNow [exampleNode ''f1'' ''R1'' None] exampleConfig Timeout)
           initialState)))
        exampleParse (exampleNow + 3600000) [exampleNode ''f1'' ''R1'' None]) = [''f1'']"
  by code_simp

text \<open>
  C5, amended. For a node selected by a run: every notifier process the run starts is
  preceded, in the trace of the run, by a save of a sent-log that holds the node's
  id; the sent-log the run leaves holds the id, however the processes end and
  whatever the run returns; and a later run that starts from this sent-log does not
  select the node again, provided its \<open>createdAt\<close> parses or the later run's clock is
  less than 3600000 ms after the first run's. The node of the later run may be any
  node with the same id and the same \<open>createdAt\<close>.
\<close>

theorem C5_saved_before_dispatch:
  "excludedRead e = Inr ex
   \<and> toFinding (parseDate e) (now e) nd
       \<in> set (selected ex (sentFindingsCache s) (parseDate e) (now e) (fetchedNodes e)) \<longrightarrow>
     (\<forall>pre args msg post.
        trace (snd (checkAndSendFindings e s)) = trace s @ pre @ Spawn args msg # post \<longrightarrow>
        (\<exists>sent. SaveSent sent \<in> set pre \<and> nodeId nd \<in> findingId ` set sent))
     \<and> nodeId nd \<in> findingId ` set (sentFindingsCache (snd (checkAndSendFindings e s)))
     \<and> (\<forall>s2 n2 ex2 ns2 nd2.
          sentFindingsCache s2 = sentFindingsCache (snd (checkAndSendFindings e s))
          \<and> nodeId nd2 = nodeId nd \<and> createdAt nd2 = createdAt nd
          \<and> (parsedCreatedAt (parseDate e) nd \<noteq> None \<or> n2 < now e + 3600000) \<longrightarrow>
          toFinding (parseDate e) n2 nd2 \<notin> set (selected ex2 (sentFindingsCache s2) (parseDate e) n2 ns2))"
proof (intro impI, elim conjE)
  assume ex: "excludedRead e = Inr ex"
    and sel: "toFinding (parseDate e) (now e) nd
       \<in> set (selected ex (sentFindingsCache s) (parseDate e) (now e) (fetchedNodes e))"
  let ?new = "newSentFindings (selected ex (sentFindingsCache s) (parseDate e) (now e) (fetchedNodes e))"
  let ?U = "cleanedSentFindings (now e) (sentFindingsCache s) @ ?new"
  let ?x = "\<lparr>findingId = nodeId nd, timestamp = findingTimestamp (parseDate e) (now e) nd\<rparr>"
  have x: "?x \<in> set ?U" using selected_entry_saved [OF ex sel] by simp
  then have idU: "nodeId nd \<in> findingId ` set ?U" by force
  have log: "sentFindingsCache (snd (checkAndSendFindings e s)) = ?U" by (rule run_cache [OF ex])
  have a: "\<forall>pre args msg post.
        trace (snd (checkAndSendFindings e s)) = trace s @ pre @ Spawn args msg # post \<longrightarrow>
        (\<exists>sent. SaveSent sent \<in> set pre \<and> nodeId nd \<in> findingId ` set sent)"
    using saved_before_spawn [OF ex] idU by blast
  have b: "nodeId nd \<in> findingId ` set (sentFindingsCache (snd (checkAndSendFindings e s)))"
    unfolding log by (rule idU)
  have c: "\<forall>s2 n2 ex2 ns2 nd2.
          sentFindingsCache s2 = sentFindingsCache (snd (checkAndSendFindings e s))
          \<and> nodeId nd2 = nodeId nd \<and> createdAt nd2 = createdAt nd
          \<and> (parsedCreatedAt (parseDate e) nd \<noteq> None \<or> n2 < now e + 3600000) \<longrightarrow>
          toFinding (parseDate e) n2 nd2 \<notin> set (selected ex2 (sentFindingsCache s2) (parseDate e) n2 ns2)"
    using not_selected_again [of nd "parseDate e" "now e"] x unfolding log by metis
  from a b c show "(\<forall>pre args msg post.
        trace (snd (checkAndSendFindings e s)) = trace s @ pre @ Spawn args msg # post \<longrightarrow>
        (\<exists>sent. SaveSent sent \<in> set pre \<and> nodeId nd \<in> findingId ` set sent))
     \<and> nodeId nd \<in> findingId ` set (sentFindingsCache (snd (checkAndSendFindings e s)))
     \<and> (\<forall>s2 n2 ex2 ns2 nd2.
          sentFindingsCache s2 = sentFindingsCache (snd (checkAndSendFindings e s))
          \<and> nodeId nd2 = nodeId nd \<and> createdAt nd2 = createdAt nd
          \<and> (parsedCreatedAt (parseDate e) nd \<noteq> None \<or> n2 < now e + 3600000) \<longrightarrow>
          toFinding (parseDate e) n2 nd2 \<notin> set (selected ex2 (sentFindingsCache s2) (parseDate e) n2 ns2))"
    by (intro conjI)
qed

theorem C5_saved_before_dispatch_witness:
  "(\<exists>sent. SaveSent sent \<in> set [SaveSent [\<lparr>findingId = ''f1'', timestamp = 1704073800000\<rparr>]]
        \<and> ''f1'' \<in> findingId ` set sent)
   \<and> ''f1'' \<in> findingId ` set (sentFindingsCache (snd (checkAndSendFindings
        (exampleEnv [] exampleNow [exampleNode ''f1'' ''R1'' (Some ''2024-01-01T01:50:00.000Z'')]
           exampleConfig Timeout)
        initialState)))
   \<and> toFinding exampleParse (exampleNow + 7200000)
        (exampleNode ''f1'' ''R1'' (Some ''2024-01-01T01:50:00.000Z''))
      \<notin> set (selected []
          (sentFindingsCache (snd (checkAndSendFindings
            (exampleEnv [] exampleNow [exampleNode ''f1'' ''R1'' (Some ''2024-01-01T01:50:00.000Z'')]
               exampleConfig Timeout)
            initialState)))
          exampleParse (exampleNow + 7200000)
          [exampleNode ''f1'' ''R1'' (Some ''2024-01-01T01:50:00.000Z'')])"
proof -
  let ?nd = "exampleNode ''f1'' ''R1'' (Some ''2024-01-01T01:50:00.000Z'')"
  let ?e = "exampleEnv [] exampleNow [?nd] exampleConfig Timeout"
  let ?inv = "groupInvocation asciiLower exampleConfig ''slack'' Id (providerConfigFile ?e)
                (''R1'', [toFinding exampleParse exampleNow ?nd])"
  have p: "parseDate ?e = exampleParse" "nodeId ?nd = ''f1''"
    by (simp_all add: exampleEnv_def exampleNode_def)
  have h: "excludedRead ?e = Inr []
     \<and> toFinding (parseDate ?e) (now ?e) ?nd
         \<in> set (selected [] (sentFindingsCache initialState) (parseDate ?e) (now ?e) (fetchedNodes ?e))"
    by code_simp
  have tr: "trace (snd (checkAndSendFindings ?e initialState))
      = trace initialState @ [SaveSent [\<lparr>findingId = ''f1'', timestamp = 1704073800000\<rparr>]]
          @ Spawn (fst ?inv) (snd ?inv) # [Emit 1 1]"
    by code_simp
  have d: "parsedCreatedAt (parseDate ?e) ?nd \<noteq> None \<or> exampleNow + 7200000 < now ?e + 3600000"
    by (simp add: parsedCreatedAt_def exampleEnv_def exampleNode_def exampleParse_def)
  note inst = C5_saved_before_dispatch [of ?e "[]" ?nd initialState, THEN mp, OF h]
  from inst [THEN conjunct1, rule_format, OF tr]
  have t1: "\<exists>sent. SaveSent sent \<in> set [SaveSent [\<lparr>findingId = ''f1'', timestamp = 1704073800000\<rparr>]]
        \<and> ''f1'' \<in> findingId ` set sent"
    by (simp only: p)
  from inst [THEN conjunct2, THEN conjunct1]
  have t2: "''f1'' \<in> findingId ` set (sentFindingsCache (snd (checkAndSendFindings ?e initialState)))"
    by (simp only: p)
  from inst [THEN conjunct2, THEN conjunct2, rule_format,
      where ?s2.0 = "snd (checkAndSendFindings ?e initialState)" and ?n2.0 = "exampleNow + 7200000"
        and ?ex2.0 = "[]" and ?ns2.0 = "[?nd]" and ?nd2.0 = ?nd] d
  have t3: "toFinding exampleParse (exampleNow + 7200000) ?nd
      \<notin> set (selected [] (sentFindingsCache (snd (checkAndSendFindings ?e initialState)))
          exampleParse (exampleNow + 7200000) [?nd])"
    by (simp only: p simp_thms)
  from t1 t2 t3 show ?thesis by (intro conjI)
qed

subsection \<open>C6: findings older than one hour\<close>



subsection \<open>C7: pruning the sent-log\<close>

text \<open>
  C7. The pruned sent-log has no entry with a timestamp at or before now - 3600000
  and every entry of it is an entry of the input log, in the input's order. It is
  the log the run holds after pruning. When the run gets past reading the exclusion
  list, the log it leaves is the pruned log followed by entries younger than one
  hour, so no entry that pruning dropped is in it.
\<close>

theorem C7_pruning_monotonic:
  "(\<forall>x \<in> set (cleanedSentFindings n l). timestamp x > n - 3600000 \<and> x \<in> set l)
   \<and> subseq (cleanedSentFindings n l) l
   \<and> sentFindingsCache (pruneSentFindings n s) = cleanedSentFindings n (sentFindingsCache s)
   \<and> (excludedRead e = Inr ex \<longrightarrow>
        (\<exists>new. sentFindingsCache (snd (checkAndSendFindings e s))
                  = cleanedSentFindings (now e) (sentFindingsCache s) @ new
               \<and> (\<forall>x \<in> set new. timestamp x > now e - 3600000))
        \<and> (\<forall>x \<in> set (sentFindingsCache s). timestamp x \<le> now e - 3600000 \<longrightarrow>
              x \<notin> set (sentFindingsCache (snd (checkAndSendFindings e s)))))"
proof -
  have a: "\<forall>x \<in> set (cleanedSentFindings n l). timestamp x > n - 3600000 \<and> x \<in> set l"
    by (simp add: set_cleaned)
  have b: "subseq (cleanedSentFindings n l) l"
    by (simp add: cleanedSentFindings_def)
  have c: "sentFindingsCache (pruneSentFindings n s) = cleanedSentFindings n (sentFindingsCache s)"
    by (rule sentFindingsCache_pruneSentFindings)
  have d: "(\<exists>new. sentFindingsCache (snd (checkAndSendFindings e s))
                  = cleanedSentFindings (now e) (sentFindingsCache s) @ new
               \<and> (\<forall>x \<in> set new. timestamp x > now e - 3600000))
        \<and> (\<forall>x \<in> set (sentFindingsCache s). timestamp x \<le> now e - 3600000 \<longrightarrow>
              x \<notin> set (sentFindingsCache (snd (checkAndSendFindings e s))))"
    if ex: "excludedRead e = Inr ex"
  proof -
    let ?new = "newSentFindings (selected ex (sentFindingsCache s) (parseDate e) (now e) (fetchedNodes e))"
    have new: "\<forall>x \<in> set ?new. timestamp x > now e - 3600000"
      by (auto simp: newSentFindings_def set_selected)
    have log: "sentFindingsCache (snd (checkAndSendFindings e s))
                 = cleanedSentFindings (now e) (sentFindingsCache s) @ ?new"
      by (rule run_cache [OF ex])
    have "\<forall>x \<in> set (sentFindingsCache (snd (checkAndSendFindings e s))). timestamp x > now e - 3600000"
      unfolding log using new by (auto simp: set_cleaned)
    then have "\<forall>x \<in> set (sentFindingsCache s). timestamp x \<le> now e - 3600000 \<longrightarrow>
              x \<notin> set (sentFindingsCache (snd (checkAndSendFindings e s)))"
      by fastforce
    with log new show ?thesis by blast
  qed
  from a b c d show ?thesis by blast
qed

theorem C7_pruning_monotonic_witness:
  "cleanedSentFindings exampleNow exampleLog = [\<lparr>findingId = ''f9'', timestamp = 1704073800000\<rparr>]
   \<and> timestamp \<lparr>findingId = ''f9'', timestamp = 1704073800000\<rparr> > exampleNow - 3600000
   \<and> subseq (cleanedSentFindings exampleNow exampleLog) exampleLog
   \<and> \<lparr>findingId = ''f0'', timestamp = 1704067200000\<rparr>
        \<notin> set (sentFindingsCache (snd (checkAndSendFindings
                 (exampleEnv [] exampleNow [] exampleConfig Timeout)
                 (initialState\<lparr>sentFindingsCache := exampleLog\<rparr>))))"
proof -
  let ?e = "exampleEnv [] exampleNow [] exampleConfig Timeout"
  let ?s = "initialState\<lparr>sentFindingsCache := exampleLog\<rparr>"
  let ?old = "\<lparr>findingId = ''f0'', timestamp = 1704067200000\<rparr>"
  let ?fresh = "\<lparr>findingId = ''f9'', timestamp = 1704073800000\<rparr>"
  have c: "cleanedSentFindings exampleNow exampleLog = [?fresh]"
    by (simp add: cleanedSentFindings_def exampleLog_def exampleNow_def oneHourAgo_def)
  have ex: "excludedRead ?e = Inr []"
    by (simp add: exampleEnv_def)
  have old: "?old \<in> set (sentFindingsCache ?s)" "timestamp ?old \<le> now ?e - 3600000"
    by (simp_all add: exampleLog_def exampleEnv_def exampleNow_def)
  have fresh: "?fresh \<in> set (cleanedSentFindings exampleNow exampleLog)"
    by (simp add: c)
  note inst = C7_pruning_monotonic [of exampleNow exampleLog ?s ?e "[]"]
  from inst fresh have t1: "timestamp ?fresh > exampleNow - 3600000" by blast
  from inst have t2: "subseq (cleanedSentFindings exampleNow exampleLog) exampleLog" by blast
  from inst ex old have t3: "?old \<notin> set (sentFindingsCache (snd (checkAndSendFindings ?e ?s)))"
    by blast
  from c t1 t2 t3 show ?thesis by blast
qed

subsection \<open>C8: the destination of a reporter group\<close>

lemma find_first:
  "(\<forall>x \<in> set pre. \<not> P x) \<Longrightarrow> P k \<Longrightarrow> List.find P (pre @ k # post) = Some k"
  by (induction pre) auto

lemma find_none: "(\<forall>x \<in> set xs. \<not> P x) \<Longrightarrow> List.find P xs = None"
  by (induction xs) auto

lemma map_of_first:
  "k \<notin> fst ` set pre \<Longrightarrow> map_of (pre @ (k, v) # post) k = Some v"
  by (induction pre) auto

lemma resolve_override:
  assumes c: "customFindingIds config = Some (pre @ (k, v) # post)"
    and k: "lower k = lower rep"
    and pre: "\<forall>k' \<in> fst ` set pre. lower k' \<noteq> lower rep"
  shows "resolveNotifyIds lower config d dt rep =
           (v, customTypeOrDefault (customFindingIdsType config) k dt)"
proof -
  have f: "List.find (\<lambda>key. lower key = lower rep) (map fst (pre @ (k, v) # post)) = Some k"
    using find_first [of "map fst pre" "\<lambda>key. lower key = lower rep" k "map fst post"] k pre
    by simp
  have "k \<notin> fst ` set pre" using k pre by blast
  then have m: "map_of (pre @ (k, v) # post) k = Some v" by (rule map_of_first)
  show ?thesis
    unfolding resolveNotifyIds_def c using f m by simp
qed

lemma resolve_default:
  assumes "customFindingIds config = None
           \<or> (\<exists>custom. customFindingIds config = Some custom
                 \<and> (\<forall>k' \<in> fst ` set custom. lower k' \<noteq> lower rep))"
  shows "resolveNotifyIds lower config d dt rep = (d, dt)"
  using assms
proof
  assume "customFindingIds config = None"
  then show ?thesis by (simp add: resolveNotifyIds_def)
next
  assume "\<exists>custom. customFindingIds config = Some custom
                 \<and> (\<forall>k' \<in> fst ` set custom. lower k' \<noteq> lower rep)"
  then obtain custom where c: "customFindingIds config = Some custom"
    and n: "\<forall>k' \<in> fst ` set custom. lower k' \<noteq> lower rep" by blast
  have "List.find (\<lambda>key. lower key = lower rep) (map fst custom) = None"
    using n by (intro find_none) simp
  then show ?thesis by (simp add: resolveNotifyIds_def c)
qed

text \<open>
  A key that equals the reporter up to ASCII case is a key that equals it after
  \<open>toLowerCase\<close>, so with such a key the destination is that of an entry of the map.
\<close>

lemma resolve_ascii:
  assumes r: "\<forall>a b. equalUpToCase a b \<longrightarrow> lower a = lower b"
    and c: "customFindingIds config = Some custom"
    and k: "\<exists>k \<in> fst ` set custom. equalUpToCase k rep"
  shows "\<exists>k v. (k, v) \<in> set custom \<and> lower k = lower rep
           \<and> fst (resolveNotifyIds lower config d dt rep) = v"
proof -
  from k r have "\<exists>kv \<in> set custom. lower (fst kv) = lower rep" by auto
  then obtain pre kv post where s: "custom = pre @ kv # post" "lower (fst kv) = lower rep"
    "\<forall>y \<in> set pre. lower (fst y) \<noteq> lower rep"
    using split_list_first_prop [of custom "\<lambda>kv. lower (fst kv) = lower rep"] by blast
  have c': "customFindingIds config = Some (pre @ (fst kv, snd kv) # post)"
    using c s(1) by simp
  have "\<forall>k' \<in> fst ` set pre. lower k' \<noteq> lower rep" using s(3) by auto
  from resolve_override [OF c' s(2) this, of d dt]
  have "fst (resolveNotifyIds lower config d dt rep) = snd kv" by simp
  moreover have "(fst kv, snd kv) \<in> set custom" using s(1) by simp
  ultimately show ?thesis using s(2) by blast
qed

lemma customTypeOrDefault_cases:
  "(customTypes = Some types \<and> map_of types k = Some t \<longrightarrow> customTypeOrDefault customTypes k dt = t)
   \<and> (customTypes = None
        \<or> (\<exists>types. customTypes = Some types \<and> map_of types k = None)
            \<and> k \<notin> set objectPrototypeKeys \<longrightarrow>
        customTypeOrDefault customTypes k dt = dt)
   \<and> ((\<exists>types. customTypes = Some types \<and> map_of types k = None)
        \<and> k \<in> set objectPrototypeKeys \<longrightarrow>
        customTypeOrDefault customTypes k dt = OtherValue)"
  by (auto simp: customTypeOrDefault_def)

lemma groupInvocation_args:
  "fst (groupInvocation lower config d dt p (rep, fs)) =
     [''-provider-config'', p,
      if snd (resolveNotifyIds lower config d dt rep) = Provider then ''-provider'' else ''-id'',
      fst (resolveNotifyIds lower config d dt rep), ''-bulk'']"
  by (simp add: groupInvocation_def Let_def split: prod.split)

lemma groupInvocation_input:
  "snd (groupInvocation lower config d dt p (rep, fs)) =
     join (newline @ newline @ ''---'' @ newline @ newline) (map (formatMessage rep) fs)"
  by (simp add: groupInvocation_def Let_def split: prod.split)

lemma filter_isSpawn_calls:
  "filter isSpawn (map (\<lambda>call. Spawn (fst call) (snd call)) calls)
     = map (\<lambda>call. Spawn (fst call) (snd call)) calls"
  by (induction calls) simp_all

lemma filter_isSpawn_none: "(\<forall>x \<in> set xs. \<not> isSpawn x) \<Longrightarrow> filter isSpawn xs = []"
  by (induction xs) simp_all

text \<open>
  The calls of \<open>spawn\<close> of a run that reaches the fan-out: one for each group of the
  selected findings, in the order of the groups.
\<close>

lemma run_spawns:
  assumes ex: "excludedRead e = Inr ex"
    and new: "selected ex (sentFindingsCache s) (parseDate e) (now e) (fetchedNodes e) \<noteq> []"
    and c: "notifyIdsRead e = Inr config" "orEmpty (defaultIds config) \<noteq> []"
  shows "filter isSpawn (trace (snd (checkAndSendFindings e s)))
     = filter isSpawn (trace s)
       @ map (\<lambda>g. Spawn
                (fst (groupInvocation (toLowerCase e) config (orEmpty (defaultIds config))
                    (case defaultIdsType config of None \<Rightarrow> Id | Some t \<Rightarrow> t)
                    (providerConfigPath e s) g))
                (snd (groupInvocation (toLowerCase e) config (orEmpty (defaultIds config))
                    (case defaultIdsType config of None \<Rightarrow> Id | Some t \<Rightarrow> t)
                    (providerConfigPath e s) g)))
           (findingsByReporter
              (selected ex (sentFindingsCache s) (parseDate e) (now e) (fetchedNodes e)))"
proof -
  from new obtain resp ns where r: "graphqlExecute e = Inr resp" "\<not> hasErrors resp"
    "nodes resp = Some ns" "fetchedNodes e = ns"
    using selected_nonempty_fetched by blast
  let ?sel = "selected ex (sentFindingsCache s) (parseDate e) (now e) ns"
  let ?U = "cleanedSentFindings (now e) (sentFindingsCache s) @ newSentFindings ?sel"
  let ?s2 = "snd (saveSentFindings ?U (pruneSentFindings (now e) s))"
  let ?d = "orEmpty (defaultIds config)"
  let ?dt = "case defaultIdsType config of None \<Rightarrow> Id | Some t \<Rightarrow> t"
  let ?f = "fanOut e config ?d ?dt ?sel ?s2"
  let ?calls = "invocations e config ?d ?dt ?sel s"
  from ex new c r have run: "checkAndSendFindings e s =
      (case fst ?f of
         Inl thrown \<Rightarrow> (Error (''Failed to check findings: '' @ thrown), snd ?f)
       | Inr results \<Rightarrow>
           (Ok (), (snd ?f)\<lparr>trace := trace (snd ?f)
              @ [Emit (length (newSentFindings ?sel)) (length ?U)]\<rparr>))"
    by (simp add: run_FanOut)
  have t: "filter isSpawn (trace (snd (checkAndSendFindings e s))) = filter isSpawn (trace (snd ?f))"
    unfolding run by (cases "fst ?f") simp_all
  obtain logs where logs: "trace (snd ?f) =
       trace ?s2 @ map (\<lambda>call. Spawn (fst call) (snd call)) ?calls @ logs"
      "\<forall>x \<in> set logs. \<not> isSpawn x"
    using fanOut_trace [of e config ?d ?dt ?sel ?s2] unfolding invocations_saved by blast
  have s2: "filter isSpawn (trace ?s2) = filter isSpawn (trace s)"
    by (simp add: saveSentFindings_def pruneSentFindings_spawns)
  have "filter isSpawn (trace (snd ?f))
      = filter isSpawn (trace s) @ map (\<lambda>call. Spawn (fst call) (snd call)) ?calls"
    unfolding logs(1) using logs(2)
    by (simp add: s2 filter_isSpawn_calls filter_isSpawn_none)
  with t r(4) show ?thesis by (simp add: invocations_def o_def)
qed

text \<open>
  C8 as stated fails in its second part: the keys are compared after \<open>toLowerCase\<close>,
  which folds every cased letter. The key is the small letter e with acute accent and
  the reporter the capital one; they are not equal up to ASCII case, and the group is
  sent to the destination of the key, not to the default destination.
\<close>

theorem C8_accented_key_counterexample:
  "\<not> equalUpToCase [CHR 0xC3, CHR 0xA9] [CHR 0xC3, CHR 0x89]
   \<and> customFindingIds accentConfig = Some [([CHR 0xC3, CHR 0xA9], ''pager'')]
   \<and> defaultIds accentConfig = Some ''slack''
   \<and> resolveNotifyIds exampleLower accentConfig ''slack'' Id [CHR 0xC3, CHR 0x89]
       = (''pager'', Provider)
   \<and> map fst (invocations
        ((exampleEnv [] exampleNow
            [exampleNode ''f1'' [CHR 0xC3, CHR 0x89] (Some ''2024-01-01T01:50:00.000Z'')]
            accentConfig (Close (Some 0) []))\<lparr>toLowerCase := exampleLower\<rparr>)
        accentConfig ''slack'' Id
        (selected [] [] exampleParse exampleNow
           [exampleNode ''f1'' [CHR 0xC3, CHR 0x89] (Some ''2024-01-01T01:50:00.000Z'')])
        initialState)
      = [[''-provider-config'', ''/home/u/.config/notify-caido/provider-config.yaml'',
          ''-provider'', ''pager'', ''-bulk'']]
   \<and> length (filter isSpawn (trace (snd (checkAndSendFindings
        ((exampleEnv [] exampleNow
            [exampleNode ''f1'' [CHR 0xC3, CHR 0x89] (Some ''2024-01-01T01:50:00.000Z'')]
            accentConfig (Close (Some 0) []))\<lparr>toLowerCase := exampleLower\<rparr>)
        initialState)))) = 1"
  by code_simp

text \<open>
  C8, amended. When a key of \<open>customFindingIds\<close> equals the reporter after \<open>toLowerCase\<close>
  on both, the group uses the destination stored under the first such key, with the
  kind stored under that key in \<open>customFindingIdsType\<close>; when no kind is stored there
  it uses the default kind, unless the key is the name of a property that objects
  inherit, and then the kind is neither of the two and the flag is \<open>-id\<close>. When no key
  equals the reporter after \<open>toLowerCase\<close> the group uses the default destination and
  the default kind. Equality up to ASCII case is equality after \<open>asciiLower\<close>, and
  when \<open>toLowerCase\<close> gives equal strings on strings that are equal up to ASCII case,
  a key equal to the reporter up to ASCII case makes the group use the destination
  of an entry of the map. The arguments of the group's notifier process carry the
  destination and the flag of the kind, and its input is the messages of the group's
  findings; the calls of \<open>spawn\<close> of a run that reaches the fan-out are these, one for
  each group of the selected findings in the order of the groups, with the configured
  default destination and kind as the defaults. The groups are the reporters of the selected
  findings, compared exactly, each with its findings in the order of the selection.
\<close>

theorem C8_destination_resolution:
  "(customFindingIds config = Some (pre @ (k, v) # post) \<and> lower k = lower rep
      \<and> (\<forall>k' \<in> fst ` set pre. lower k' \<noteq> lower rep) \<longrightarrow>
        fst (resolveNotifyIds lower config d dt rep) = v
        \<and> (\<forall>types t. customFindingIdsType config = Some types \<and> map_of types k = Some t \<longrightarrow>
              snd (resolveNotifyIds lower config d dt rep) = t)
        \<and> (customFindingIdsType config = None
            \<or> (\<exists>types. customFindingIdsType config = Some types \<and> map_of types k = None)
                \<and> k \<notin> set objectPrototypeKeys \<longrightarrow>
              snd (resolveNotifyIds lower config d dt rep) = dt)
        \<and> ((\<exists>types. customFindingIdsType config = Some types \<and> map_of types k = None)
              \<and> k \<in> set objectPrototypeKeys \<longrightarrow>
              snd (resolveNotifyIds lower config d dt rep) = OtherValue))
   \<and> (customFindingIds config = None
        \<or> (\<exists>custom. customFindingIds config = Some custom
              \<and> (\<forall>k' \<in> fst ` set custom. lower k' \<noteq> lower rep)) \<longrightarrow>
        resolveNotifyIds lower config d dt rep = (d, dt))
   \<and> (equalUpToCase a b \<longleftrightarrow> asciiLower a = asciiLower b)
   \<and> ((\<forall>a b. equalUpToCase a b \<longrightarrow> lower a = lower b)
        \<and> customFindingIds config = Some custom
        \<and> (\<exists>k \<in> fst ` set custom. equalUpToCase k rep) \<longrightarrow>
        (\<exists>k v. (k, v) \<in> set custom \<and> lower k = lower rep
           \<and> fst (resolveNotifyIds lower config d dt rep) = v))
   \<and> fst (groupInvocation lower config d dt p (rep, fs)) =
        [''-provider-config'', p,
         if snd (resolveNotifyIds lower config d dt rep) = Provider then ''-provider'' else ''-id'',
         fst (resolveNotifyIds lower config d dt rep), ''-bulk'']
   \<and> snd (groupInvocation lower config d dt p (rep, fs)) =
        join (newline @ newline @ ''---'' @ newline @ newline) (map (formatMessage rep) fs)
   \<and> (excludedRead e = Inr ex
        \<and> selected ex (sentFindingsCache s) (parseDate e) (now e) (fetchedNodes e) \<noteq> []
        \<and> notifyIdsRead e = Inr cfg \<and> orEmpty (defaultIds cfg) \<noteq> [] \<longrightarrow>
        filter isSpawn (trace (snd (checkAndSendFindings e s)))
          = filter isSpawn (trace s)
            @ map (\<lambda>g. Spawn
                     (fst (groupInvocation (toLowerCase e) cfg (orEmpty (defaultIds cfg))
                        (case defaultIdsType cfg of None \<Rightarrow> Id | Some t \<Rightarrow> t)
                        (providerConfigPath e s) g))
                     (snd (groupInvocation (toLowerCase e) cfg (orEmpty (defaultIds cfg))
                        (case defaultIdsType cfg of None \<Rightarrow> Id | Some t \<Rightarrow> t)
                        (providerConfigPath e s) g)))
                (findingsByReporter
                   (selected ex (sentFindingsCache s) (parseDate e) (now e) (fetchedNodes e))))
   \<and> ((r, g) \<in> set (findingsByReporter new) \<longleftrightarrow>
        g \<noteq> [] \<and> g = filter (\<lambda>f. getReporter f = r) new)"
proof -
  have a: "resolveNotifyIds lower config d dt rep
        = (v, customTypeOrDefault (customFindingIdsType config) k dt)"
    if "customFindingIds config = Some (pre @ (k, v) # post)" "lower k = lower rep"
       "\<forall>k' \<in> fst ` set pre. lower k' \<noteq> lower rep"
    using that by (rule resolve_override)
  note ct = customTypeOrDefault_cases [of "customFindingIdsType config" _ k _ dt]
  have b: "resolveNotifyIds lower config d dt rep = (d, dt)"
    if "customFindingIds config = None
        \<or> (\<exists>custom. customFindingIds config = Some custom
              \<and> (\<forall>k' \<in> fst ` set custom. lower k' \<noteq> lower rep))"
    using that by (rule resolve_default)
  have c: "filter isSpawn (trace (snd (checkAndSendFindings e s)))
          = filter isSpawn (trace s)
            @ map (\<lambda>g. Spawn
                     (fst (groupInvocation (toLowerCase e) cfg (orEmpty (defaultIds cfg))
                        (case defaultIdsType cfg of None \<Rightarrow> Id | Some t \<Rightarrow> t)
                        (providerConfigPath e s) g))
                     (snd (groupInvocation (toLowerCase e) cfg (orEmpty (defaultIds cfg))
                        (case defaultIdsType cfg of None \<Rightarrow> Id | Some t \<Rightarrow> t)
                        (providerConfigPath e s) g)))
                (findingsByReporter
                   (selected ex (sentFindingsCache s) (parseDate e) (now e) (fetchedNodes e)))"
    if "excludedRead e = Inr ex"
      "selected ex (sentFindingsCache s) (parseDate e) (now e) (fetchedNodes e) \<noteq> []"
      "notifyIdsRead e = Inr cfg" "orEmpty (defaultIds cfg) \<noteq> []"
    using that by (rule run_spawns)
  show ?thesis
    apply (intro conjI impI allI)
    subgoal using a by simp
    subgoal for types t using a ct [of types t] by simp
    subgoal using a ct by auto
    subgoal using a ct by auto
    subgoal using b by blast
    subgoal by (rule equalUpToCase_iff)
    subgoal by (rule resolve_ascii) blast+
    subgoal by (rule groupInvocation_args)
    subgoal by (rule groupInvocation_input)
    subgoal using c by blast
    subgoal by (rule findingsByReporter_iff)
    done
qed

theorem C8_destination_resolution_witness:
  "asciiLower ''sql injection'' = asciiLower ''SQL Injection''
   \<and> resolveNotifyIds asciiLower exampleConfig ''slack'' Id ''SQL Injection'' = (''pager'', Provider)
   \<and> resolveNotifyIds asciiLower exampleConfig ''slack'' Id ''Enhanced File Detector'' = (''slack'', Id)
   \<and> resolveNotifyIds asciiLower constructorConfig ''slack'' Provider ''Constructor''
       = (''pager'', OtherValue)
   \<and> (\<exists>k v. (k, v) \<in> set [(''sql injection'', ''pager'')]
         \<and> asciiLower k = asciiLower ''SQL Injection''
         \<and> fst (resolveNotifyIds asciiLower exampleConfig ''slack'' Id ''SQL Injection'') = v)
   \<and> filter isSpawn (trace (snd (checkAndSendFindings
           (exampleEnv [] exampleNow
              [exampleNode ''f1'' ''SQL Injection'' (Some ''2024-01-01T01:50:00.000Z''),
               exampleNode ''f2'' ''R1'' (Some ''2024-01-01T01:50:00.000Z''),
               exampleNode ''f3'' ''SQL Injection'' (Some ''2024-01-01T01:50:00.000Z'')]
              exampleConfig (Close (Some 0) []))
           initialState)))
       = [Spawn [''-provider-config'', ''/home/u/.config/notify-caido/provider-config.yaml'',
                 ''-provider'', ''pager'', ''-bulk'']
            (join (newline @ newline @ ''---'' @ newline @ newline)
               (map (formatMessage ''SQL Injection'')
                  [toFinding exampleParse exampleNow
                     (exampleNode ''f1'' ''SQL Injection'' (Some ''2024-01-01T01:50:00.000Z'')),
                   toFinding exampleParse exampleNow
                     (exampleNode ''f3'' ''SQL Injection'' (Some ''2024-01-01T01:50:00.000Z''))])),
          Spawn [''-provider-config'', ''/home/u/.config/notify-caido/provider-config.yaml'',
                 ''-id'', ''slack'', ''-bulk'']
            (join (newline @ newline @ ''---'' @ newline @ newline)
               (map (formatMessage ''R1'')
                  [toFinding exampleParse exampleNow
                     (exampleNode ''f2'' ''R1'' (Some ''2024-01-01T01:50:00.000Z''))]))]"
proof -
  let ?n1 = "exampleNode ''f1'' ''SQL Injection'' (Some ''2024-01-01T01:50:00.000Z'')"
  let ?n2 = "exampleNode ''f2'' ''R1'' (Some ''2024-01-01T01:50:00.000Z'')"
  let ?n3 = "exampleNode ''f3'' ''SQL Injection'' (Some ''2024-01-01T01:50:00.000Z'')"
  let ?e = "exampleEnv [] exampleNow [?n1, ?n2, ?n3] exampleConfig (Close (Some 0) [])"
  have c: "customFindingIds exampleConfig = Some ([] @ (''sql injection'', ''pager'') # [])"
    by (simp add: exampleConfig_def)
  have t: "customFindingIdsType exampleConfig = Some [(''sql injection'', Provider)]
      \<and> map_of [(''sql injection'', Provider)] ''sql injection'' = Some Provider"
    by (simp add: exampleConfig_def)
  have k: "asciiLower ''sql injection'' = asciiLower ''SQL Injection''"
    by code_simp
  have n: "\<forall>k' \<in> fst ` set ([] :: (string \<times> string) list).
             asciiLower k' \<noteq> asciiLower ''SQL Injection''"
    by simp
  have o: "customFindingIds exampleConfig = None
      \<or> (\<exists>custom. customFindingIds exampleConfig = Some custom
              \<and> (\<forall>k' \<in> fst ` set custom. asciiLower k' \<noteq> asciiLower ''Enhanced File Detector''))"
    by (simp add: exampleConfig_def asciiLower_def)
  have h: "customFindingIds exampleConfig = Some ([] @ (''sql injection'', ''pager'') # [])
      \<and> asciiLower ''sql injection'' = asciiLower ''SQL Injection''
      \<and> (\<forall>k' \<in> fst ` set ([] :: (string \<times> string) list).
             asciiLower k' \<noteq> asciiLower ''SQL Injection'')"
    using c k n by (intro conjI)
  note inst = C8_destination_resolution [where config = exampleConfig and pre = "[]"
      and k = "''sql injection''" and v = "''pager''" and post = "[]" and lower = asciiLower
      and rep = "''SQL Injection''" and d = "''slack''" and dt = Id
      and custom = "[(''sql injection'', ''pager'')]"
      and e = ?e and ex = "[]" and s = initialState and cfg = exampleConfig]
  note ov = inst [THEN conjunct1, THEN mp, OF h]
  from ov [THEN conjunct2, THEN conjunct1, rule_format, OF t]
  have "snd (resolveNotifyIds asciiLower exampleConfig ''slack'' Id ''SQL Injection'') = Provider" .
  with ov [THEN conjunct1]
  have "fst (resolveNotifyIds asciiLower exampleConfig ''slack'' Id ''SQL Injection'') = ''pager''
     \<and> snd (resolveNotifyIds asciiLower exampleConfig ''slack'' Id ''SQL Injection'') = Provider"
    by (rule conjI)
  then have r1: "resolveNotifyIds asciiLower exampleConfig ''slack'' Id ''SQL Injection''
      = (''pager'', Provider)"
    by (simp add: prod_eq_iff)
  have r2: "resolveNotifyIds asciiLower exampleConfig ''slack'' Id ''Enhanced File Detector''
      = (''slack'', Id)"
    using C8_destination_resolution [where config = exampleConfig and lower = asciiLower
        and rep = "''Enhanced File Detector''" and d = "''slack''" and dt = Id,
        THEN conjunct2, THEN conjunct1, THEN mp, OF o] .
  have hc: "customFindingIds constructorConfig = Some ([] @ (''constructor'', ''pager'') # [])
      \<and> asciiLower ''constructor'' = asciiLower ''Constructor''
      \<and> (\<forall>k' \<in> fst ` set ([] :: (string \<times> string) list).
             asciiLower k' \<noteq> asciiLower ''Constructor'')"
    by code_simp
  have hi: "(\<exists>types. customFindingIdsType constructorConfig = Some types
               \<and> map_of types ''constructor'' = None)
      \<and> ''constructor'' \<in> set objectPrototypeKeys"
    by (simp add: constructorConfig_def objectPrototypeKeys_def)
  note oc = C8_destination_resolution [where config = constructorConfig and pre = "[]"
      and k = "''constructor''" and v = "''pager''" and post = "[]" and lower = asciiLower
      and rep = "''Constructor''" and d = "''slack''" and dt = Provider,
      THEN conjunct1, THEN mp, OF hc]
  from oc [THEN conjunct2, THEN conjunct2, THEN conjunct2, THEN mp, OF hi]
  have "snd (resolveNotifyIds asciiLower constructorConfig ''slack'' Provider ''Constructor'')
      = OtherValue" .
  with oc [THEN conjunct1]
  have "fst (resolveNotifyIds asciiLower constructorConfig ''slack'' Provider ''Constructor'') = ''pager''
     \<and> snd (resolveNotifyIds asciiLower constructorConfig ''slack'' Provider ''Constructor'')
         = OtherValue"
    by (rule conjI)
  then have rc: "resolveNotifyIds asciiLower constructorConfig ''slack'' Provider ''Constructor''
      = (''pager'', OtherValue)"
    by (simp add: prod_eq_iff)
  have ha: "(\<forall>a b. equalUpToCase a b \<longrightarrow> asciiLower a = asciiLower b)
      \<and> customFindingIds exampleConfig = Some [(''sql injection'', ''pager'')]
      \<and> (\<exists>k \<in> fst ` set [(''sql injection'', ''pager'')]. equalUpToCase k ''SQL Injection'')"
  proof (intro conjI)
    show "\<forall>a b. equalUpToCase a b \<longrightarrow> asciiLower a = asciiLower b"
      by (simp add: equalUpToCase_iff)
    show "customFindingIds exampleConfig = Some [(''sql injection'', ''pager'')]"
      by (simp add: exampleConfig_def)
    have "equalUpToCase ''sql injection'' ''SQL Injection''" by code_simp
    then show "\<exists>k \<in> fst ` set [(''sql injection'', ''pager'')]. equalUpToCase k ''SQL Injection''"
      by simp
  qed
  note r3 = inst [THEN conjunct2, THEN conjunct2, THEN conjunct2, THEN conjunct1, THEN mp, OF ha]
  have hr: "excludedRead ?e = Inr []
      \<and> selected [] (sentFindingsCache initialState) (parseDate ?e) (now ?e) (fetchedNodes ?e) \<noteq> []
      \<and> notifyIdsRead ?e = Inr exampleConfig \<and> orEmpty (defaultIds exampleConfig) \<noteq> []"
    by code_simp
  have calls: "filter isSpawn (trace initialState)
            @ map (\<lambda>g. Spawn
                     (fst (groupInvocation (toLowerCase ?e) exampleConfig (orEmpty (defaultIds exampleConfig))
                        (case defaultIdsType exampleConfig of None \<Rightarrow> Id | Some t \<Rightarrow> t)
                        (providerConfigPath ?e initialState) g))
                     (snd (groupInvocation (toLowerCase ?e) exampleConfig (orEmpty (defaultIds exampleConfig))
                        (case defaultIdsType exampleConfig of None \<Rightarrow> Id | Some t \<Rightarrow> t)
                        (providerConfigPath ?e initialState) g)))
                (findingsByReporter
                   (selected [] (sentFindingsCache initialState) (parseDate ?e) (now ?e) (fetchedNodes ?e)))
      = [Spawn [''-provider-config'', ''/home/u/.config/notify-caido/provider-config.yaml'',
                 ''-provider'', ''pager'', ''-bulk'']
            (join (newline @ newline @ ''---'' @ newline @ newline)
               (map (formatMessage ''SQL Injection'')
                  [toFinding exampleParse exampleNow ?n1, toFinding exampleParse exampleNow ?n3])),
          Spawn [''-provider-config'', ''/home/u/.config/notify-caido/provider-config.yaml'',
                 ''-id'', ''slack'', ''-bulk'']
            (join (newline @ newline @ ''---'' @ newline @ newline)
               (map (formatMessage ''R1'') [toFinding exampleParse exampleNow ?n2]))]"
    by code_simp
  from inst [THEN conjunct2, THEN conjunct2, THEN conjunct2, THEN conjunct2, THEN conjunct2,
      THEN conjunct2, THEN conjunct1, THEN mp, OF hr]
  have r4: "filter isSpawn (trace (snd (checkAndSendFindings ?e initialState)))
      = [Spawn [''-provider-config'', ''/home/u/.config/notify-caido/provider-config.yaml'',
                 ''-provider'', ''pager'', ''-bulk'']
            (join (newline @ newline @ ''---'' @ newline @ newline)
               (map (formatMessage ''SQL Injection'')
                  [toFinding exampleParse exampleNow ?n1, toFinding exampleParse exampleNow ?n3])),
          Spawn [''-provider-config'', ''/home/u/.config/notify-caido/provider-config.yaml'',
                 ''-id'', ''slack'', ''-bulk'']
            (join (newline @ newline @ ''---'' @ newline @ newline)
               (map (formatMessage ''R1'') [toFinding exampleParse exampleNow ?n2]))]"
    unfolding calls .
  from k r1 r2 rc r3 r4 show ?thesis by (intro conjI)
qed

subsection \<open>C9: a check delay below one second\<close>

text \<open>
  C9. For a delay below 1000, saveCheckDelay returns the error "Delay must be at least
  1000ms (1 second)" and leaves the state as it was, and so does the function
  registered under its name: the stored delay, the timer and the trace (no timer is
  cleared or set) are unchanged. The registered function changes the state beyond
  what saveCheckDelay does only when saveCheckDelay succeeds, and then by
  startCheckingFindings.
\<close>

theorem C9_short_delay_rejected:
  "(delay < 1000 \<longrightarrow>
     saveCheckDelay delay s = (Error ''Delay must be at least 1000ms (1 second)'', s)
     \<and> registeredSaveCheckDelay delay s = (Error ''Delay must be at least 1000ms (1 second)'', s))
   \<and> (snd (registeredSaveCheckDelay delay s) \<noteq> snd (saveCheckDelay delay s) \<longrightarrow>
        fst (saveCheckDelay delay s) = Ok ())
   \<and> (fst (saveCheckDelay delay s) = Ok () \<longrightarrow>
        1000 \<le> delay
        \<and> snd (registeredSaveCheckDelay delay s) = startCheckingFindings (s\<lparr>checkDelayCache := delay\<rparr>))"
  by (simp add: saveCheckDelay_def registeredSaveCheckDelay_def)

theorem C9_short_delay_rejected_witness:
  "registeredSaveCheckDelay 500 init = (Error ''Delay must be at least 1000ms (1 second)'', init)
   \<and> checkDelayCache init = 60000 \<and> checkInterval init = Some 60000
   \<and> trace init = [SetInterval 60000]"
proof -
  have "(500::real) < 1000" by simp
  with C9_short_delay_rejected [of 500 init]
  have "registeredSaveCheckDelay 500 init = (Error ''Delay must be at least 1000ms (1 second)'', init)"
    by blast
  moreover have "checkDelayCache init = 60000 \<and> checkInterval init = Some 60000 \<and> trace init = [SetInterval 60000]"
    by (simp add: init_def startCheckingFindings_def initialState_def getCheckDelay_def)
  ultimately show ?thesis by blast
qed

subsection \<open>C10: the timestamp of a sent-log entry\<close>

lemma written_entries:
  assumes ex: "excludedRead e = Inr ex"
  shows "sentFindingsCache (snd (checkAndSendFindings e s))
           = cleanedSentFindings (now e) (sentFindingsCache s)
             @ map (\<lambda>f. \<lparr>findingId = getId f, timestamp = getTimestamp f\<rparr>)
                 (selected ex (sentFindingsCache s) (parseDate e) (now e) (fetchedNodes e))"
  using run_cache [OF ex, of s] by (simp add: newSentFindings_def)

lemma selected_timestamp:
  assumes "f \<in> set (selected ex l parse n ns)"
  shows "\<exists>nd \<in> set ns. f = toFinding parse n nd \<and> getId f = nodeId nd
           \<and> getTimestamp f = (case parsedCreatedAt parse nd of None \<Rightarrow> n | Some t \<Rightarrow> t)"
proof -
  from assms obtain nd where nd: "nd \<in> set ns" "f = toFinding parse n nd"
    by (auto simp: set_selected)
  then have "getId f = nodeId nd \<and> getTimestamp f = findingTimestamp parse n nd"
    by (simp add: toFinding_def)
  with nd show ?thesis by (auto simp: findingTimestamp_parsed)
qed

lemma selected_entry_written:
  assumes ex: "excludedRead e = Inr ex"
    and sel: "toFinding (parseDate e) (now e) nd
                \<in> set (selected ex (sentFindingsCache s) (parseDate e) (now e) (fetchedNodes e))"
  shows "\<lparr>findingId = nodeId nd,
           timestamp = (case parsedCreatedAt (parseDate e) nd of None \<Rightarrow> now e | Some t \<Rightarrow> t)\<rparr>
         \<in> set (sentFindingsCache (snd (checkAndSendFindings e s)))"
proof -
  let ?f = "toFinding (parseDate e) (now e) nd"
  have "\<lparr>findingId = getId ?f, timestamp = getTimestamp ?f\<rparr>
      \<in> set (sentFindingsCache (snd (checkAndSendFindings e s)))"
    unfolding written_entries [OF ex] using sel by simp
  then show ?thesis by (simp add: toFinding_def findingTimestamp_parsed)
qed

lemma pruned_iff_not_recent:
  assumes "parsedCreatedAt parse nd = Some t"
  shows "(cleanedSentFindings n [\<lparr>findingId = nodeId nd, timestamp = t\<rparr>] = [])
           = (recentFindings n (allFindings parse n [nd]) = [])"
  using assms
  by (simp add: cleanedSentFindings_def recentFindings_def allFindings_def toFinding_def
        findingTimestamp_parsed)

lemma dated_not_selected:
  assumes p: "parsedCreatedAt parse nd = Some t"
    and entry: "\<lparr>findingId = nodeId nd, timestamp = t\<rparr> \<in> set l"
  shows "toFinding parse n nd \<notin> set (selected ex l parse n ns)"
proof -
  from p have "findingTimestamp parse n0 nd = t" for n0 by (simp add: findingTimestamp_parsed)
  with entry have "\<lparr>findingId = nodeId nd, timestamp = findingTimestamp parse n nd\<rparr> \<in> set l" by simp
  moreover from p have "parsedCreatedAt parse nd \<noteq> None \<or> n < n + 3600000" by simp
  ultimately show ?thesis by (rule not_selected_again [OF _ refl refl])
qed

lemma old_not_selected:
  assumes p: "parsedCreatedAt parse nd = Some t" and old: "t \<le> n - 3600000"
  shows "toFinding parse n nd \<notin> set (selected ex l parse n ns)"
  using assms by (simp add: set_selected toFinding_def findingTimestamp_parsed)

text \<open>
  Over any number of later runs whose clocks do not go back: once the entry of a dated
  node is in the sent-log, no later run selects the node.
\<close>

lemma dated_never_selected_again:
  assumes p: "parsedCreatedAt parse nd = Some t"
    and sorted: "sorted (map now es)"
    and inv: "\<lparr>findingId = nodeId nd, timestamp = t\<rparr> \<in> set (sentFindingsCache s)
              \<or> (\<forall>e \<in> set es. t \<le> now e - 3600000)"
    and split: "es = pre @ e' # post"
  shows "toFinding parse (now e') nd \<notin> set (selected ex (sentFindingsCache (runs pre s)) parse (now e') ns)"
  using sorted inv split
proof (induction pre arbitrary: es s)
  case Nil
  from Nil.prems(2) show ?case
  proof
    assume "\<lparr>findingId = nodeId nd, timestamp = t\<rparr> \<in> set (sentFindingsCache s)"
    with p show ?thesis by (simp add: dated_not_selected)
  next
    assume "\<forall>e \<in> set es. t \<le> now e - 3600000"
    with Nil.prems(3) have "t \<le> now e' - 3600000" by simp
    with p show ?thesis by (simp add: old_not_selected)
  qed
next
  case (Cons e0 pre)
  let ?x = "\<lparr>findingId = nodeId nd, timestamp = t\<rparr>"
  let ?s' = "snd (checkAndSendFindings e0 s)"
  let ?es' = "pre @ e' # post"
  from Cons.prems(3) have es: "es = e0 # ?es'" by simp
  from Cons.prems(1) es have sorted': "sorted (map now ?es')"
    and le: "\<forall>e \<in> set ?es'. now e0 \<le> now e" by auto
  have inv': "?x \<in> set (sentFindingsCache ?s') \<or> (\<forall>e \<in> set ?es'. t \<le> now e - 3600000)"
    using Cons.prems(2)
  proof
    assume "\<forall>e \<in> set es. t \<le> now e - 3600000"
    with es show ?thesis by simp
  next
    assume mem: "?x \<in> set (sentFindingsCache s)"
    show ?thesis
    proof (cases "excludedRead e0")
      case (Inl m)
      with mem show ?thesis by (simp add: run_ExcludedFails)
    next
      case (Inr ex0)
      show ?thesis
      proof (cases "t > now e0 - 3600000")
        case True
        with mem have "?x \<in> set (cleanedSentFindings (now e0) (sentFindingsCache s))"
          by (simp add: set_cleaned)
        then show ?thesis by (simp add: run_cache [OF Inr])
      next
        case False
        with le have "\<forall>e \<in> set ?es'. t \<le> now e - 3600000" by fastforce
        then show ?thesis by simp
      qed
    qed
  qed
  from Cons.IH [OF sorted' inv' refl] show ?case by simp
qed

lemma undated_selected:
  assumes p: "parsedCreatedAt parse nd = None"
    and nd: "nd \<in> set ns" and ex: "nodeId nd \<notin> set ex" "reporter nd \<notin> set ex"
    and aged: "\<forall>x \<in> set l. findingId x = nodeId nd \<longrightarrow> timestamp x \<le> n - 3600000"
  shows "toFinding parse n nd \<in> set (selected ex l parse n ns)"
proof -
  from p have "getTimestamp (toFinding parse n nd) = n"
    by (simp add: toFinding_def findingTimestamp_parsed)
  moreover have "getId (toFinding parse n nd) = nodeId nd"
    "getReporter (toFinding parse n nd) = reporter nd"
    by (simp_all add: toFinding_def)
  moreover from aged have "nodeId nd \<notin> findingId ` {x \<in> set l. timestamp x > n - 3600000}"
    by force
  ultimately show ?thesis using nd ex by (simp add: set_selected)
qed

lemma undated_selected_again:
  assumes ex: "excludedRead e = Inr ex"
    and dist: "distinct (map nodeId (fetchedNodes e))"
    and p: "parsedCreatedAt (parseDate e) nd = None"
    and sel: "toFinding (parseDate e) (now e) nd
                \<in> set (selected ex (sentFindingsCache s) (parseDate e) (now e) (fetchedNodes e))"
    and later: "now e + 3600000 \<le> n2"
    and nd2: "nd \<in> set ns2" "nodeId nd \<notin> set ex2" "reporter nd \<notin> set ex2"
  shows "toFinding (parseDate e) n2 nd
           \<in> set (selected ex2 (sentFindingsCache (snd (checkAndSendFindings e s))) (parseDate e) n2 ns2)"
proof -
  let ?sel = "selected ex (sentFindingsCache s) (parseDate e) (now e) (fetchedNodes e)"
  from sel have unsent: "nodeId nd \<notin> findingId ` {x \<in> set (sentFindingsCache s). timestamp x > now e - 3600000}"
    by (simp add: set_selected toFinding_def)
  from sel obtain nd0 where nd0: "nd0 \<in> set (fetchedNodes e)"
      "toFinding (parseDate e) (now e) nd = toFinding (parseDate e) (now e) nd0"
    by (auto simp: set_selected)
  have aged: "timestamp x \<le> n2 - 3600000"
    if x: "x \<in> set (sentFindingsCache (snd (checkAndSendFindings e s)))" and i: "findingId x = nodeId nd" for x
  proof -
    from x have "x \<in> set (cleanedSentFindings (now e) (sentFindingsCache s)) \<or> x \<in> set (newSentFindings ?sel)"
      by (simp add: run_cache [OF ex])
    then show ?thesis
    proof
      assume "x \<in> set (cleanedSentFindings (now e) (sentFindingsCache s))"
      with unsent i show ?thesis by (force simp: set_cleaned)
    next
      assume "x \<in> set (newSentFindings ?sel)"
      then obtain f where f: "f \<in> set ?sel" and xf: "x = \<lparr>findingId = getId f, timestamp = getTimestamp f\<rparr>"
        by (auto simp: newSentFindings_def)
      from f obtain nd' where nd': "nd' \<in> set (fetchedNodes e)" "f = toFinding (parseDate e) (now e) nd'"
        by (auto simp: set_selected)
      from nd0(2) have "nodeId nd0 = nodeId nd" by (simp add: toFinding_def)
      with nd' xf i have "nodeId nd' = nodeId nd0" by (simp add: toFinding_def)
      with dist nd'(1) nd0(1) have "nd' = nd0" by (simp add: distinct_map inj_on_def)
      with nd' nd0(2) have "f = toFinding (parseDate e) (now e) nd" by simp
      with xf p have "timestamp x = now e" by (simp add: toFinding_def findingTimestamp_parsed)
      with later show ?thesis by simp
    qed
  qed
  then have "\<forall>x \<in> set (sentFindingsCache (snd (checkAndSendFindings e s))).
      findingId x = nodeId nd \<longrightarrow> timestamp x \<le> n2 - 3600000" by blast
  from undated_selected [OF p nd2 this] show ?thesis .
qed

text \<open>
  C10 as stated fails in its middle part when the clock of the machine is set back
  between two runs. The finding f9 was created at 01:50. The run at 02:00 sends it;
  the run at 04:00 prunes its entry; a run whose clock reads 02:00 again finds no entry
  and a finding younger than one hour, selects it and starts the notifier a second
  time.
\<close>

theorem C10_clock_set_back_counterexample:
  "parsedCreatedAt exampleParse (exampleNode ''f9'' ''R1'' (Some ''2024-01-01T01:50:00.000Z''))
     = Some 1704073800000
   \<and> sentFindingsCache (runs
        [exampleEnv [] exampleNow [exampleNode ''f9'' ''R1'' (Some ''2024-01-01T01:50:00.000Z'')]
           exampleConfig (Close (Some 0) [])]
        initialState)
       = [\<lparr>findingId = ''f9'', timestamp = 1704073800000\<rparr>]
   \<and> sentFindingsCache (runs
        [exampleEnv [] exampleNow [exampleNode ''f9'' ''R1'' (Some ''2024-01-01T01:50:00.000Z'')]
           exampleConfig (Close (Some 0) []),
         exampleEnv [] (exampleNow + 7200000) [] exampleConfig (Close (Some 0) [])]
        initialState)
       = []
   \<and> map getId (selected []
        (sentFindingsCache (runs
          [exampleEnv [] exampleNow [exampleNode ''f9'' ''R1'' (Some ''2024-01-01T01:50:00.000Z'')]
             exampleConfig (Close (Some 0) []),
           exampleEnv [] (exampleNow + 7200000) [] exampleConfig (Close (Some 0) [])]
          initialState))
        exampleParse exampleNow
        [exampleNode ''f9'' ''R1'' (Some ''2024-01-01T01:50:00.000Z'')]) = [''f9'']
   \<and> length (filter isSpawn (trace (runs
        [exampleEnv [] exampleNow [exampleNode ''f9'' ''R1'' (Some ''2024-01-01T01:50:00.000Z'')]
           exampleConfig (Close (Some 0) []),
         exampleEnv [] (exampleNow + 7200000) [] exampleConfig (Close (Some 0) []),
         exampleEnv [] exampleNow [exampleNode ''f9'' ''R1'' (Some ''2024-01-01T01:50:00.000Z'')]
           exampleConfig (Close (Some 0) [])]
        initialState))) = 2"
  by code_simp

text \<open>
  C10, amended. The sent-log a run leaves is the pruned log followed by one entry for
  each selected finding, in the order of the selection, with the id and the timestamp
  of the finding; a selected finding comes from a fetched node, and its timestamp is
  the node's parsed \<open>createdAt\<close>, or the clock of the run when there is none. So the
  entry of every selected node is in the log. For a node whose \<open>createdAt\<close> parses:
  pruning drops its entry exactly when the recency filter drops the node; while the
  entry is in the sent-log the node is not selected; and over any later runs whose
  clocks do not go back, starting from a sent-log that holds the entry, no run selects
  the node, whether or not the entry has been pruned by then. For a node without a
  parsed \<open>createdAt\<close>: its timestamp is the clock of each run; it is selected as soon
  as every entry with its id is at or before now - 3600000 (unless it is excluded);
  so, with distinct ids among the fetched nodes, a node selected by one run is selected
  again by a run that starts from the sent-log the first left and whose clock is one
  hour or more later.
\<close>

theorem C10_entries_carry_creation_time:
  "(excludedRead e = Inr ex \<longrightarrow>
      sentFindingsCache (snd (checkAndSendFindings e s))
        = cleanedSentFindings (now e) (sentFindingsCache s)
          @ map (\<lambda>f. \<lparr>findingId = getId f, timestamp = getTimestamp f\<rparr>)
              (selected ex (sentFindingsCache s) (parseDate e) (now e) (fetchedNodes e))
      \<and> (\<forall>f \<in> set (selected ex (sentFindingsCache s) (parseDate e) (now e) (fetchedNodes e)).
            \<exists>nd \<in> set (fetchedNodes e). f = toFinding (parseDate e) (now e) nd
               \<and> getId f = nodeId nd
               \<and> getTimestamp f
                   = (case parsedCreatedAt (parseDate e) nd of None \<Rightarrow> now e | Some t \<Rightarrow> t))
      \<and> (toFinding (parseDate e) (now e) nd
            \<in> set (selected ex (sentFindingsCache s) (parseDate e) (now e) (fetchedNodes e)) \<longrightarrow>
          \<lparr>findingId = nodeId nd,
            timestamp = (case parsedCreatedAt (parseDate e) nd of None \<Rightarrow> now e | Some t \<Rightarrow> t)\<rparr>
            \<in> set (sentFindingsCache (snd (checkAndSendFindings e s)))))
   \<and> (parsedCreatedAt parse nd = Some t \<longrightarrow>
        (cleanedSentFindings n [\<lparr>findingId = nodeId nd, timestamp = t\<rparr>] = [])
          = (recentFindings n (allFindings parse n [nd]) = [])
        \<and> (\<lparr>findingId = nodeId nd, timestamp = t\<rparr> \<in> set l \<longrightarrow>
              toFinding parse n nd \<notin> set (selected ex' l parse n ns))
        \<and> (\<lparr>findingId = nodeId nd, timestamp = t\<rparr> \<in> set (sentFindingsCache s0)
            \<and> sorted (map now (pre @ e' # post)) \<longrightarrow>
              toFinding parse (now e') nd
                \<notin> set (selected ex' (sentFindingsCache (runs pre s0)) parse (now e') ns)))
   \<and> (parsedCreatedAt parse nd = None \<longrightarrow>
        findingTimestamp parse n nd = n
        \<and> (nd \<in> set ns \<and> nodeId nd \<notin> set ex' \<and> reporter nd \<notin> set ex'
            \<and> (\<forall>x \<in> set l. findingId x = nodeId nd \<longrightarrow> timestamp x \<le> n - 3600000) \<longrightarrow>
              toFinding parse n nd \<in> set (selected ex' l parse n ns)))
   \<and> (excludedRead e = Inr ex \<and> distinct (map nodeId (fetchedNodes e))
        \<and> parsedCreatedAt (parseDate e) nd = None
        \<and> toFinding (parseDate e) (now e) nd
             \<in> set (selected ex (sentFindingsCache s) (parseDate e) (now e) (fetchedNodes e))
        \<and> now e + 3600000 \<le> n
        \<and> nd \<in> set ns \<and> nodeId nd \<notin> set ex' \<and> reporter nd \<notin> set ex' \<longrightarrow>
          toFinding (parseDate e) n nd
            \<in> set (selected ex' (sentFindingsCache (snd (checkAndSendFindings e s))) (parseDate e) n ns))"
proof (intro conjI impI ballI)
  assume "excludedRead e = Inr ex"
  then show "sentFindingsCache (snd (checkAndSendFindings e s))
        = cleanedSentFindings (now e) (sentFindingsCache s)
          @ map (\<lambda>f. \<lparr>findingId = getId f, timestamp = getTimestamp f\<rparr>)
              (selected ex (sentFindingsCache s) (parseDate e) (now e) (fetchedNodes e))"
    by (rule written_entries)
next
  fix f
  assume "f \<in> set (selected ex (sentFindingsCache s) (parseDate e) (now e) (fetchedNodes e))"
  then show "\<exists>nd \<in> set (fetchedNodes e). f = toFinding (parseDate e) (now e) nd
               \<and> getId f = nodeId nd
               \<and> getTimestamp f
                   = (case parsedCreatedAt (parseDate e) nd of None \<Rightarrow> now e | Some t \<Rightarrow> t)"
    by (rule selected_timestamp)
next
  assume "excludedRead e = Inr ex"
    "toFinding (parseDate e) (now e) nd
            \<in> set (selected ex (sentFindingsCache s) (parseDate e) (now e) (fetchedNodes e))"
  then show "\<lparr>findingId = nodeId nd,
            timestamp = (case parsedCreatedAt (parseDate e) nd of None \<Rightarrow> now e | Some t \<Rightarrow> t)\<rparr>
            \<in> set (sentFindingsCache (snd (checkAndSendFindings e s)))"
    by (rule selected_entry_written)
next
  assume "parsedCreatedAt parse nd = Some t"
  then show "(cleanedSentFindings n [\<lparr>findingId = nodeId nd, timestamp = t\<rparr>] = [])
          = (recentFindings n (allFindings parse n [nd]) = [])"
    by (rule pruned_iff_not_recent)
next
  assume "parsedCreatedAt parse nd = Some t" "\<lparr>findingId = nodeId nd, timestamp = t\<rparr> \<in> set l"
  then show "toFinding parse n nd \<notin> set (selected ex' l parse n ns)"
    by (rule dated_not_selected)
next
  assume p: "parsedCreatedAt parse nd = Some t"
    and h: "\<lparr>findingId = nodeId nd, timestamp = t\<rparr> \<in> set (sentFindingsCache s0)
            \<and> sorted (map now (pre @ e' # post))"
  from h have "\<lparr>findingId = nodeId nd, timestamp = t\<rparr> \<in> set (sentFindingsCache s0)
              \<or> (\<forall>e \<in> set (pre @ e' # post). t \<le> now e - 3600000)" by blast
  from dated_never_selected_again [OF p conjunct2 [OF h] this refl]
  show "toFinding parse (now e') nd
                \<notin> set (selected ex' (sentFindingsCache (runs pre s0)) parse (now e') ns)" .
next
  assume "parsedCreatedAt parse nd = None"
  then show "findingTimestamp parse n nd = n" by (simp add: findingTimestamp_parsed)
next
  assume p: "parsedCreatedAt parse nd = None"
    and h: "nd \<in> set ns \<and> nodeId nd \<notin> set ex' \<and> reporter nd \<notin> set ex'
            \<and> (\<forall>x \<in> set l. findingId x = nodeId nd \<longrightarrow> timestamp x \<le> n - 3600000)"
  from h have "nd \<in> set ns" "nodeId nd \<notin> set ex'" "reporter nd \<notin> set ex'"
    "\<forall>x \<in> set l. findingId x = nodeId nd \<longrightarrow> timestamp x \<le> n - 3600000" by blast+
  with p show "toFinding parse n nd \<in> set (selected ex' l parse n ns)"
    by (rule undated_selected)
next
  assume h: "excludedRead e = Inr ex \<and> distinct (map nodeId (fetchedNodes e))
        \<and> parsedCreatedAt (parseDate e) nd = None
        \<and> toFinding (parseDate e) (now e) nd
             \<in> set (selected ex (sentFindingsCache s) (parseDate e) (now e) (fetchedNodes e))
        \<and> now e + 3600000 \<le> n
        \<and> nd \<in> set ns \<and> nodeId nd \<notin> set ex' \<and> reporter nd \<notin> set ex'"
  from h have "excludedRead e = Inr ex" "distinct (map nodeId (fetchedNodes e))"
    "parsedCreatedAt (parseDate e) nd = None"
    "toFinding (parseDate e) (now e) nd
             \<in> set (selected ex (sentFindingsCache s) (parseDate e) (now e) (fetchedNodes e))"
    "now e + 3600000 \<le> n" "nd \<in> set ns" "nodeId nd \<notin> set ex'" "reporter nd \<notin> set ex'"
    by blast+
  then show "toFinding (parseDate e) n nd
            \<in> set (selected ex' (sentFindingsCache (snd (checkAndSendFindings e s))) (parseDate e) n ns)"
    by (rule undated_selected_again)
qed

theorem C10_entries_carry_creation_time_witness:
  "sentFindingsCache (snd (checkAndSendFindings
      (exampleEnv [] exampleNow [exampleNode ''f9'' ''R1'' (Some ''2024-01-01T01:50:00.000Z'')]
         exampleConfig Timeout)
      initialState))
     = [\<lparr>findingId = ''f9'', timestamp = 1704073800000\<rparr>]
   \<and> sentFindingsCache (snd (checkAndSendFindings
      (exampleEnv [] exampleNow [exampleNode ''f1'' ''R1'' None] exampleConfig Timeout)
      initialState))
     = [\<lparr>findingId = ''f1'', timestamp = exampleNow\<rparr>]
   \<and> toFinding exampleParse (exampleNow + 3600000) (exampleNode ''f1'' ''R1'' None)
     \<in> set (selected []
          (sentFindingsCache (snd (checkAndSendFindings
            (exampleEnv [] exampleNow [exampleNode ''f1'' ''R1'' None] exampleConfig Timeout)
            initialState)))
          exampleParse (exampleNow + 3600000) [exampleNode ''f1'' ''R1'' None])
   \<and> toFinding exampleParse (exampleNow + 7200000)
        (exampleNode ''f9'' ''R1'' (Some ''2024-01-01T01:50:00.000Z''))
     \<notin> set (selected []
          (sentFindingsCache (runs
            [exampleEnv [] exampleNow [] exampleConfig Timeout,
             exampleEnv [] (exampleNow + 3600000) [] exampleConfig Timeout]
            (initialState\<lparr>sentFindingsCache := exampleLog\<rparr>)))
          exampleParse (exampleNow + 7200000)
          [exampleNode ''f9'' ''R1'' (Some ''2024-01-01T01:50:00.000Z'')])"
proof -
  let ?u = "exampleNode ''f1'' ''R1'' None"
  let ?d = "exampleNode ''f9'' ''R1'' (Some ''2024-01-01T01:50:00.000Z'')"
  let ?e = "exampleEnv [] exampleNow [?u] exampleConfig Timeout"
  let ?eA = "exampleEnv [] exampleNow [] exampleConfig Timeout"
  let ?eB = "exampleEnv [] (exampleNow + 3600000) [] exampleConfig Timeout"
  let ?eC = "exampleEnv [] (exampleNow + 7200000) [?d] exampleConfig Timeout"
  let ?s0 = "initialState\<lparr>sentFindingsCache := exampleLog\<rparr>"
  have pe: "parseDate ?e = exampleParse" "now ?eC = exampleNow + 7200000"
    by (simp_all add: exampleEnv_def)
  have h1: "excludedRead ?e = Inr [] \<and> distinct (map nodeId (fetchedNodes ?e))
        \<and> parsedCreatedAt (parseDate ?e) ?u = None
        \<and> toFinding (parseDate ?e) (now ?e) ?u
             \<in> set (selected [] (sentFindingsCache initialState) (parseDate ?e) (now ?e) (fetchedNodes ?e))
        \<and> now ?e + 3600000 \<le> exampleNow + 3600000
        \<and> ?u \<in> set [?u] \<and> nodeId ?u \<notin> set [] \<and> reporter ?u \<notin> set []"
    by code_simp
  have h2: "parsedCreatedAt exampleParse ?d = Some 1704073800000"
    by code_simp
  have h3: "\<lparr>findingId = nodeId ?d, timestamp = 1704073800000\<rparr> \<in> set (sentFindingsCache ?s0)
      \<and> sorted (map now ([?eA, ?eB] @ ?eC # []))"
    by code_simp
  let ?eD = "exampleEnv [] exampleNow [?d] exampleConfig Timeout"
  have xD: "excludedRead ?eD = Inr []" and xU: "excludedRead ?e = Inr []"
    by (simp_all add: exampleEnv_def)
  have vD: "cleanedSentFindings (now ?eD) (sentFindingsCache initialState)
          @ map (\<lambda>f. \<lparr>findingId = getId f, timestamp = getTimestamp f\<rparr>)
              (selected [] (sentFindingsCache initialState) (parseDate ?eD) (now ?eD) (fetchedNodes ?eD))
      = [\<lparr>findingId = ''f9'', timestamp = 1704073800000\<rparr>]"
    by code_simp
  have vU: "cleanedSentFindings (now ?e) (sentFindingsCache initialState)
          @ map (\<lambda>f. \<lparr>findingId = getId f, timestamp = getTimestamp f\<rparr>)
              (selected [] (sentFindingsCache initialState) (parseDate ?e) (now ?e) (fetchedNodes ?e))
      = [\<lparr>findingId = ''f1'', timestamp = exampleNow\<rparr>]"
    by code_simp
  from C10_entries_carry_creation_time
         [where e = ?eD and ex = "[]" and s = initialState,
          THEN conjunct1, THEN mp, OF xD, THEN conjunct1]
  have w0: "sentFindingsCache (snd (checkAndSendFindings ?eD initialState))
      = [\<lparr>findingId = ''f9'', timestamp = 1704073800000\<rparr>]"
    unfolding vD .
  from C10_entries_carry_creation_time
         [where e = ?e and ex = "[]" and s = initialState,
          THEN conjunct1, THEN mp, OF xU, THEN conjunct1]
  have w0': "sentFindingsCache (snd (checkAndSendFindings ?e initialState))
      = [\<lparr>findingId = ''f1'', timestamp = exampleNow\<rparr>]"
    unfolding vU .
  from C10_entries_carry_creation_time
         [where e = ?e and ex = "[]" and s = initialState and nd = ?u
            and n = "exampleNow + 3600000" and ex' = "[]" and ns = "[?u]",
          THEN conjunct2, THEN conjunct2, THEN conjunct2, THEN mp, OF h1]
  have w1: "toFinding exampleParse (exampleNow + 3600000) ?u
     \<in> set (selected [] (sentFindingsCache (snd (checkAndSendFindings ?e initialState)))
          exampleParse (exampleNow + 3600000) [?u])"
    by (simp only: pe simp_thms)
  from C10_entries_carry_creation_time
         [where parse = exampleParse and nd = ?d and t = 1704073800000 and ex' = "[]"
            and ns = "[?d]" and ?s0.0 = ?s0 and pre = "[?eA, ?eB]" and e' = ?eC and post = "[]",
          THEN conjunct2, THEN conjunct1, THEN mp, OF h2,
          THEN conjunct2, THEN conjunct2, THEN mp, OF h3]
  have w2: "toFinding exampleParse (exampleNow + 7200000) ?d
     \<notin> set (selected [] (sentFindingsCache (runs [?eA, ?eB] ?s0)) exampleParse
          (exampleNow + 7200000) [?d])"
    by (simp only: pe simp_thms)
  from w0 w0' w1 w2 show ?thesis by (intro conjI)
qed

end
